theory Spec2Isabelle
  imports Main "HOL-Library.Word"
begin

section \<open>The coolq client of haruno: data model\<close>

text \<open>
  The development follows \<^verbatim>\<open>coolq/cqclient.go\<close>. Go's \<^verbatim>\<open>int64\<close> is a 64-bit word;
  subtraction wraps and comparisons read the word as two's complement (\<open>sint\<close>).
\<close>

type_synonym int64 = "64 word"

definition timeForWait :: int64 where
  "timeForWait = 30"

definition noFilterKey :: string where
  "noFilterKey = ''__NEVER_SET_UNUSED_KEY__''"

text \<open>
  A value of the Go type \<^verbatim>\<open>Filter\<close> (\<^verbatim>\<open>func(*CQEvent) bool\<close>) is \<^verbatim>\<open>nil\<close> or a function.
  A filter function is taken to be a predicate on the event.
\<close>

datatype 'e Filter = NilFilter | FilterFunc "'e \<Rightarrow> bool"

text \<open>
  A value of the Go type \<^verbatim>\<open>Handler\<close> (\<^verbatim>\<open>func(*CQEvent)\<close>) is \<^verbatim>\<open>nil\<close>, a function supplied
  by a plugin (opaque, identified by a value of type \<open>'h\<close>), or the closure that
  \<^verbatim>\<open>RegisterAllPlugins\<close> builds over its local slice \<^verbatim>\<open>noFilterHanlers\<close>.
\<close>

datatype 'h Handler = NilHandler | PluginHandler 'h | CatchAll "'h Handler list"

record ('e, 'h) pluginEntry =
  keys :: "string list"
  fitlers :: "string \<rightharpoonup> 'e Filter"
  handlers :: "string \<rightharpoonup> 'h Handler"

text \<open>
  Indexing a Go map yields the zero value of the element type for a key that is absent
  (also when the map itself is \<^verbatim>\<open>nil\<close>, which is the empty map here).
\<close>

definition index_bool :: "('k \<rightharpoonup> bool) \<Rightarrow> 'k \<Rightarrow> bool" where
  "index_bool m k = (case m k of None \<Rightarrow> False | Some b \<Rightarrow> b)"

definition index_filter :: "('k \<rightharpoonup> 'e Filter) \<Rightarrow> 'k \<Rightarrow> 'e Filter" where
  "index_filter m k = (case m k of None \<Rightarrow> NilFilter | Some f \<Rightarrow> f)"

definition index_handler :: "('k \<rightharpoonup> 'h Handler) \<Rightarrow> 'k \<Rightarrow> 'h Handler" where
  "index_handler m k = (case m k of None \<Rightarrow> NilHandler | Some h \<Rightarrow> h)"

definition index_entry :: "('k \<rightharpoonup> ('e, 'h) pluginEntry) \<Rightarrow> 'k \<Rightarrow> ('e, 'h) pluginEntry" where
  "index_entry m k =
     (case m k of
        None \<Rightarrow> \<lparr>keys = [], fitlers = Map.empty, handlers = Map.empty\<rparr>
      | Some entry \<Rightarrow> entry)"

subsection \<open>Wire envelopes and the transport\<close>

text \<open>
  The action names (\<^verbatim>\<open>ActionSendGroupMsg\<close>, ...) are constants declared outside this file;
  they are the constructors of an enumeration here.
\<close>

datatype Action =
    ActionSendGroupMsg
  | ActionSendPrivateMsg
  | ActionSetGroupKick
  | ActionSetGroupBan
  | ActionSetGroupWholeBan
  | ActionGetStatus

datatype CQParams =
    CQTypeSendGroupMsg int64 string
  | CQTypeSendPrivateMsg int64 string
  | CQTypeSetGroupKick int64 int64 bool
  | CQTypeSetGroupBan int64 int64 int64
  | CQTypeSetGroupWholeBan int64 bool

record CQWSMessage =
  Action :: Action
  Params :: CQParams
  Echo :: int64

text \<open>
  Modelled from the spec: the type \<^verbatim>\<open>clients.WSClient\<close> with its methods \<^verbatim>\<open>IsConnected\<close>,
  \<^verbatim>\<open>Send\<close> and \<^verbatim>\<open>Dial\<close> is not part of this file. The spec gives the gateway client a
  connectivity predicate and a \<^verbatim>\<open>Send\<close> that transmits bytes on the stream channel; the
  frames handed to the transport are kept in \<open>Sent\<close>.
\<close>

datatype MessageType = TextMessage | BinaryMessage

record WSClient =
  ConnName :: string
  Connected :: bool
  Sent :: "(MessageType \<times> string) list"

definition IsConnected :: "WSClient \<Rightarrow> bool" where
  "IsConnected conn = Connected conn"

definition Send :: "MessageType \<Rightarrow> string \<Rightarrow> WSClient \<Rightarrow> WSClient" where
  "Send messageType msg conn = conn\<lparr>Sent := Sent conn @ [(messageType, msg)]\<rparr>"

text \<open>What the logger is asked to print, one constructor for each call site.\<close>

datatype log_entry =
    PluginLoadError string string
  | UnusedKeyWarning string string
  | OnMessageError string string
  | EchoTimeout int64
  | HTTPApiURLNotSet
  | GetStatusError string

text \<open>
  The client. The mutex is not modelled (every operation below is one atomic step), and
  \<open>logs\<close> collects the output of the logger.
\<close>

record ('e, 'h) cqclient =
  token :: string
  apiConn :: WSClient
  eventConn :: WSClient
  apiURL :: string
  pluginEntries :: "string \<rightharpoonup> ('e, 'h) pluginEntry"
  echoqueue :: "int64 \<rightharpoonup> bool"
  logs :: "log_entry list"

text \<open>The value of the package variable \<^verbatim>\<open>Client\<close>: \<^verbatim>\<open>echoqueue\<close> is left \<^verbatim>\<open>nil\<close>.\<close>

definition Client :: "('e, 'h) cqclient" where
  "Client =
     \<lparr>token = [],
      apiConn = \<lparr>ConnName = [], Connected = False, Sent = []\<rparr>,
      eventConn = \<lparr>ConnName = [], Connected = False, Sent = []\<rparr>,
      apiURL = [],
      pluginEntries = Map.empty,
      echoqueue = Map.empty,
      logs = []\<rparr>"

definition logf :: "log_entry \<Rightarrow> ('e, 'h) cqclient \<Rightarrow> ('e, 'h) cqclient" where
  "logf l c = c\<lparr>logs := logs c @ [l]\<rparr>"

text \<open>
  \<^verbatim>\<open>Initialize\<close> stores the token and names the two connections; the callbacks it installs
  and the goroutine it starts are \<open>apiConn_OnMessage\<close>, \<open>eventConn_OnMessage\<close> and
  \<open>sweeper\<close> below.
\<close>

definition Initialize :: "string \<Rightarrow> ('e, 'h) cqclient \<Rightarrow> ('e, 'h) cqclient" where
  "Initialize tok c =
     c\<lparr>token := tok,
       apiConn := (apiConn c)\<lparr>ConnName := ''coolq api conn''\<rparr>,
       eventConn := (eventConn c)\<lparr>ConnName := ''coolq event conn''\<rparr>\<rparr>"

text \<open>
  \<^verbatim>\<open>Connect\<close>; whether each \<^verbatim>\<open>Dial\<close> brings its connection up is decided outside this file
  and given by \<open>apiUp\<close> and \<open>eventUp\<close>.
\<close>

definition Connect ::
  "bool \<Rightarrow> bool \<Rightarrow> string \<Rightarrow> string \<Rightarrow> ('e, 'h) cqclient \<Rightarrow> ('e, 'h) cqclient" where
  "Connect apiUp eventUp wsURL httpURL c =
     c\<lparr>apiConn := (apiConn c)\<lparr>Connected := apiUp\<rparr>,
       eventConn := (eventConn c)\<lparr>Connected := eventUp\<rparr>,
       apiURL := httpURL\<rparr>"

section \<open>Correlation of replies\<close>

definition deqEcho :: "int64 \<Rightarrow> ('e, 'h) cqclient \<Rightarrow> ('e, 'h) cqclient" where
  "deqEcho echo c = c\<lparr>echoqueue := (echoqueue c)(echo := None)\<rparr>"

text \<open>A decoded reply envelope; \<^verbatim>\<open>Data\<close> is an untyped JSON value.\<close>

datatype json =
    JNull
  | JBool bool
  | JNumber int
  | JString string
  | JArray "json list"
  | JObject "(string \<times> json) list"

record CQResponse =
  RetCode :: int
  Data :: json
  RespEcho :: int64

text \<open>
  The part of \<^verbatim>\<open>apiConn.OnMessage\<close> after decoding: the reply's echo is removed from the
  queue when the queue holds it with state \<^verbatim>\<open>true\<close>.
\<close>

definition resolveEcho :: "int64 \<Rightarrow> ('e, 'h) cqclient \<Rightarrow> ('e, 'h) cqclient" where
  "resolveEcho echo c = (if index_bool (echoqueue c) echo then deqEcho echo c else c)"

text \<open>
  \<^verbatim>\<open>apiConn.OnMessage\<close>; \<open>unmarshal\<close> stands for \<^verbatim>\<open>json.Unmarshal\<close> into a \<^verbatim>\<open>CQResponse\<close>.
\<close>

definition apiConn_OnMessage ::
  "('raw \<Rightarrow> string + CQResponse) \<Rightarrow> 'raw \<Rightarrow> ('e, 'h) cqclient \<Rightarrow> ('e, 'h) cqclient" where
  "apiConn_OnMessage unmarshal raw c =
     (case unmarshal raw of
        Inl err \<Rightarrow> logf (OnMessageError (ConnName (apiConn c)) err) c
      | Inr msg \<Rightarrow> resolveEcho (RespEcho msg) c)"

text \<open>
  One tick of the cleaning goroutine. \<open>now\<close> is \<^verbatim>\<open>time.Now().Unix()\<close>; the list is the
  order in which \<^verbatim>\<open>range c.echoqueue\<close> yields the keys (Go leaves it unspecified). A key
  deleted before it is reached is not yielded.
\<close>

fun sweep :: "int64 \<Rightarrow> int64 list \<Rightarrow> ('e, 'h) cqclient \<Rightarrow> ('e, 'h) cqclient" where
  "sweep now [] c = c"
| "sweep now (echo # rest) c =
     (case echoqueue c echo of
        None \<Rightarrow> sweep now rest c
      | Some state \<Rightarrow>
          if state \<and> sint timeForWait < sint (now - echo)
          then sweep now rest (deqEcho echo (logf (EchoTimeout echo) c))
          else sweep now rest c)"

text \<open>
  The goroutine itself never returns: it runs one pass at every tick. A finite prefix of
  its run is given by the ticks that have fired, each with its clock value and range order.
\<close>

fun sweeper :: "(int64 \<times> int64 list) list \<Rightarrow> ('e, 'h) cqclient \<Rightarrow> ('e, 'h) cqclient" where
  "sweeper [] c = c"
| "sweeper ((now, order) # ticks) c = sweeper ticks (sweep now order c)"

section \<open>Outbound commands\<close>

definition IsAPIOk :: "('e, 'h) cqclient \<Rightarrow> bool" where
  "IsAPIOk c = IsConnected (apiConn c)"

definition IsEventOk :: "('e, 'h) cqclient \<Rightarrow> bool" where
  "IsEventOk c = IsConnected (eventConn c)"

text \<open>
  \<open>marshal\<close> stands for \<^verbatim>\<open>json.Marshal\<close>, whose error is discarded: the bytes it returns
  are sent whatever they are.
\<close>

definition APISendJSON ::
  "('d \<Rightarrow> string) \<Rightarrow> 'd \<Rightarrow> ('e, 'h) cqclient \<Rightarrow> ('e, 'h) cqclient" where
  "APISendJSON marshal data c =
     (if \<not> IsAPIOk c then c
      else c\<lparr>apiConn := Send TextMessage (marshal data) (apiConn c)\<rparr>)"

text \<open>In each command \<open>now\<close> is the value of \<^verbatim>\<open>time.Now().Unix()\<close>.\<close>

definition SendGroupMsg ::
  "(CQWSMessage \<Rightarrow> string) \<Rightarrow> int64 \<Rightarrow> int64 \<Rightarrow> string \<Rightarrow>
   ('e, 'h) cqclient \<Rightarrow> ('e, 'h) cqclient" where
  "SendGroupMsg marshal now groupID message c =
     APISendJSON marshal
       \<lparr>Action = ActionSendGroupMsg, Params = CQTypeSendGroupMsg groupID message, Echo = now\<rparr> c"

definition SendPrivateMsg ::
  "(CQWSMessage \<Rightarrow> string) \<Rightarrow> int64 \<Rightarrow> int64 \<Rightarrow> string \<Rightarrow>
   ('e, 'h) cqclient \<Rightarrow> ('e, 'h) cqclient" where
  "SendPrivateMsg marshal now userID message c =
     APISendJSON marshal
       \<lparr>Action = ActionSendPrivateMsg, Params = CQTypeSendPrivateMsg userID message, Echo = now\<rparr> c"

definition SetGroupKick ::
  "(CQWSMessage \<Rightarrow> string) \<Rightarrow> int64 \<Rightarrow> int64 \<Rightarrow> int64 \<Rightarrow> bool \<Rightarrow>
   ('e, 'h) cqclient \<Rightarrow> ('e, 'h) cqclient" where
  "SetGroupKick marshal now groupID userID reject c =
     APISendJSON marshal
       \<lparr>Action = ActionSetGroupKick, Params = CQTypeSetGroupKick groupID userID reject, Echo = now\<rparr> c"

definition SetGroupBan ::
  "(CQWSMessage \<Rightarrow> string) \<Rightarrow> int64 \<Rightarrow> int64 \<Rightarrow> int64 \<Rightarrow> int64 \<Rightarrow>
   ('e, 'h) cqclient \<Rightarrow> ('e, 'h) cqclient" where
  "SetGroupBan marshal now groupID userID duration c =
     APISendJSON marshal
       \<lparr>Action = ActionSetGroupBan, Params = CQTypeSetGroupBan groupID userID duration, Echo = now\<rparr> c"

definition SetGroupWholeBan ::
  "(CQWSMessage \<Rightarrow> string) \<Rightarrow> int64 \<Rightarrow> int64 \<Rightarrow> bool \<Rightarrow>
   ('e, 'h) cqclient \<Rightarrow> ('e, 'h) cqclient" where
  "SetGroupWholeBan marshal now groupID enable c =
     APISendJSON marshal
       \<lparr>Action = ActionSetGroupWholeBan, Params = CQTypeSetGroupWholeBan groupID enable, Echo = now\<rparr> c"

section \<open>The status query\<close>

record CQTypeGetStatus =
  AppInitialized :: bool
  AppEnabled :: bool
  PluginsGood :: bool
  AppGood :: bool
  Online :: bool
  Good :: bool

text \<open>The run-time panic of a type assertion \<^verbatim>\<open>x.(T)\<close> on a value that is not a \<^verbatim>\<open>T\<close>.\<close>

datatype panic = InterfaceConversion

definition getAPIURL :: "('e, 'h) cqclient \<Rightarrow> string \<Rightarrow> string" where
  "getAPIURL c api = apiURL c @ ''/'' @ api"

text \<open>
  \<^verbatim>\<open>v.(map[string]interface{})\<close>: the decoder turns a JSON object into a Go map, in which
  the last of several members with one name wins; every other JSON value is of another type.
\<close>

definition assert_map :: "json \<Rightarrow> panic + (string \<rightharpoonup> json)" where
  "assert_map v =
     (case v of JObject members \<Rightarrow> Inr (map_of (rev members)) | _ \<Rightarrow> Inl InterfaceConversion)"

text \<open>\<^verbatim>\<open>data[k].(bool)\<close>: an absent key yields the \<^verbatim>\<open>nil\<close> interface, which is not a bool.\<close>

definition assert_bool :: "json option \<Rightarrow> panic + bool" where
  "assert_bool v = (case v of Some (JBool b) \<Rightarrow> Inr b | _ \<Rightarrow> Inl InterfaceConversion)"

definition bind_panic :: "panic + 'a \<Rightarrow> ('a \<Rightarrow> panic + 'b) \<Rightarrow> panic + 'b" where
  "bind_panic r k = (case r of Inl p \<Rightarrow> Inl p | Inr x \<Rightarrow> k x)"

text \<open>The last ten lines of \<^verbatim>\<open>GetStatus\<close>: the assertions run in this order.\<close>

definition decodeStatus :: "json \<Rightarrow> panic + CQTypeGetStatus" where
  "decodeStatus v =
     bind_panic (assert_map v) (\<lambda>data.
     bind_panic (assert_bool (data ''app_initialized'')) (\<lambda>appInitialized.
     bind_panic (assert_bool (data ''app_enabled'')) (\<lambda>appEnabled.
     bind_panic (assert_bool (data ''plugins_good'')) (\<lambda>pluginsGood.
     bind_panic (assert_bool (data ''app_good'')) (\<lambda>appGood.
     bind_panic (assert_bool (data ''online'')) (\<lambda>online.
     bind_panic (assert_bool (data ''good'')) (\<lambda>good.
       Inr \<lparr>AppInitialized = appInitialized, AppEnabled = appEnabled,
            PluginsGood = pluginsGood, AppGood = appGood, Online = online, Good = good\<rparr>)))))))"

text \<open>
  \<^verbatim>\<open>GetStatus\<close>. \<open>actionGetStatus\<close> is the string of the constant \<^verbatim>\<open>ActionGetStatus\<close>,
  \<open>httpGet\<close> stands for \<^verbatim>\<open>c.httpConn.Get\<close> and \<open>decode\<close> for the JSON decoder on the body
  of the reply. The result is \<open>Inl\<close> for a panic, \<open>Inr None\<close> for \<^verbatim>\<open>nil\<close> and
  \<open>Inr (Some status)\<close> for a status.
\<close>

definition GetStatus ::
  "string \<Rightarrow> (string \<Rightarrow> string + 'body) \<Rightarrow> ('body \<Rightarrow> string + CQResponse) \<Rightarrow>
   ('e, 'h) cqclient \<Rightarrow> (panic + CQTypeGetStatus option) \<times> ('e, 'h) cqclient" where
  "GetStatus actionGetStatus httpGet decode c =
     (if apiURL c = [] then (Inr None, logf HTTPApiURLNotSet c)
      else case httpGet (getAPIURL c actionGetStatus) of
        Inl err \<Rightarrow> (Inr None, logf (GetStatusError err) c)
      | Inr body \<Rightarrow>
          (case decode body of
             Inl err \<Rightarrow> (Inr None, logf (GetStatusError err) c)
           | Inr response \<Rightarrow>
               if RetCode response \<noteq> 0 then (Inr None, c)
               else (case decodeStatus (Data response) of
                       Inl p \<Rightarrow> (Inl p, c)
                     | Inr status \<Rightarrow> (Inr (Some status), c))))"

section \<open>Registration of plugins\<close>

text \<open>
  \<^verbatim>\<open>PluginInterface\<close> and the package variable \<^verbatim>\<open>entries\<close> are declared outside this file.
  A plugin is given by what its methods return: \<open>Load\<close> is the error of \<^verbatim>\<open>Load()\<close>
  (\<open>None\<close> for \<^verbatim>\<open>nil\<close>), and \<open>Filters\<close> and \<open>Handlers\<close> are the two Go maps, each as
  the list of its key-value pairs in the order in which \<^verbatim>\<open>range\<close> yields them; the keys of
  a Go map are distinct. \<^verbatim>\<open>entries\<close> is the list of plugins in range order.
\<close>

record ('e, 'h) plugin =
  Name :: string
  Load :: "string option"
  Filters :: "(string \<times> 'e Filter) list"
  Handlers :: "(string \<times> 'h Handler) list"

text \<open>Phase 1: the plugins whose \<^verbatim>\<open>Load\<close> fails are logged and skipped.\<close>

fun loadPlugins ::
  "('e, 'h) plugin list \<Rightarrow> ('e, 'h) plugin list \<Rightarrow> ('e, 'h) cqclient \<Rightarrow>
   ('e, 'h) plugin list \<times> ('e, 'h) cqclient" where
  "loadPlugins [] loaded c = (loaded, c)"
| "loadPlugins (plug # rest) loaded c =
     (case Load plug of
        Some err \<Rightarrow> loadPlugins rest loaded (logf (PluginLoadError (Name plug) err) c)
      | None \<Rightarrow> loadPlugins rest (loaded @ [plug]) c)"

text \<open>
  Phase 2, for one plugin. The first loop runs over the filters and carries the local
  variables \<^verbatim>\<open>hasFilter\<close> and \<^verbatim>\<open>entry\<close>, and the warnings it has logged.
\<close>

record ('e, 'h) pairing =
  hasFilter :: "string \<rightharpoonup> bool"
  entry' :: "('e, 'h) pluginEntry"
  warned :: "log_entry list"

fun pairFilters ::
  "string \<Rightarrow> (string \<times> 'h Handler) list \<Rightarrow> (string \<times> 'e Filter) list \<Rightarrow>
   ('e, 'h) pairing \<Rightarrow> ('e, 'h) pairing" where
  "pairFilters pluginName pluginHandlers [] p = p"
| "pairFilters pluginName pluginHandlers ((key, filter') # rest) p =
     (let handler = index_handler (map_of pluginHandlers) key in
      if handler = NilHandler
      then pairFilters pluginName pluginHandlers rest
             (p\<lparr>warned := warned p @ [UnusedKeyWarning pluginName key]\<rparr>)
      else pairFilters pluginName pluginHandlers rest
             (p\<lparr>hasFilter := (hasFilter p)(key \<mapsto> True),
                entry' := (entry' p)
                  \<lparr>keys := keys (entry' p) @ [key],
                   fitlers := (fitlers (entry' p))(key \<mapsto> filter'),
                   handlers := (handlers (entry' p))(key \<mapsto> handler)\<rparr>\<rparr>))"

text \<open>The state of these variables after the first loop.\<close>

definition afterFilters :: "('e, 'h) plugin \<Rightarrow> ('e, 'h) pairing" where
  "afterFilters plug =
     pairFilters (Name plug) (Handlers plug) (Filters plug)
       \<lparr>hasFilter = Map.empty,
        entry' = \<lparr>keys = [], fitlers = Map.empty, handlers = Map.empty\<rparr>,
        warned = []\<rparr>"

text \<open>The slice \<^verbatim>\<open>noFilterHanlers\<close> after the second loop.\<close>

definition noFilterHanlers :: "('e, 'h) plugin \<Rightarrow> 'h Handler list" where
  "noFilterHanlers plug =
     [handler. (key, handler) \<leftarrow> Handlers plug,
        \<not> index_bool (hasFilter (afterFilters plug)) key]"

text \<open>
  The body of the second phase up to the assignment to \<^verbatim>\<open>c.pluginEntries\<close>: the entry
  built for a plugin, and the warnings logged on the way.
\<close>

definition buildEntry :: "('e, 'h) plugin \<Rightarrow> ('e, 'h) pluginEntry \<times> log_entry list" where
  "buildEntry plug =
     ((entry' (afterFilters plug))
        \<lparr>handlers := (handlers (entry' (afterFilters plug)))
           (noFilterKey \<mapsto> CatchAll (noFilterHanlers plug))\<rparr>,
      warned (afterFilters plug))"

definition registerPlugin :: "('e, 'h) plugin \<Rightarrow> ('e, 'h) cqclient \<Rightarrow> ('e, 'h) cqclient" where
  "registerPlugin plug c =
     (let (entry, warnings) = buildEntry plug
      in c\<lparr>pluginEntries := (pluginEntries c)(Name plug \<mapsto> entry),
           logs := logs c @ warnings\<rparr>)"

text \<open>
  \<^verbatim>\<open>RegisterAllPlugins\<close>. The second component names the plugins whose \<^verbatim>\<open>Loaded\<close> hook
  is started with \<^verbatim>\<open>go\<close> in phase 3. The function has no result and no error path.
\<close>

definition RegisterAllPlugins ::
  "('e, 'h) plugin list \<Rightarrow> ('e, 'h) cqclient \<Rightarrow> ('e, 'h) cqclient \<times> string list" where
  "RegisterAllPlugins entries c =
     (let (loaded, c1) = loadPlugins entries [] c
      in (fold registerPlugin loaded c1, map Name loaded))"

section \<open>Dispatch of events\<close>

text \<open>
  What a goroutine does is recorded as a list of events: the call of the filter in slot
  \<open>key\<close> of the entry \<open>name\<close>, the call of the handler in such a slot, the execution of a
  plugin's function (taken to return), and the panic of calling \<^verbatim>\<open>nil\<close>, which ends the
  goroutine.
\<close>

datatype ('e, 'h) trace_event =
    FilterCall string string 'e
  | HandlerCall string string 'e
  | Run 'h 'e
  | NilPanic

text \<open>
  Calling a value of type \<^verbatim>\<open>Handler\<close>. The closure of \<^verbatim>\<open>RegisterAllPlugins\<close> calls the
  members of its slice one after the other.
\<close>

fun call :: "'h Handler \<Rightarrow> 'e \<Rightarrow> ('e, 'h) trace_event list"
  and call_seq :: "'h Handler list \<Rightarrow> 'e \<Rightarrow> ('e, 'h) trace_event list" where
  "call NilHandler event = [NilPanic]"
| "call (PluginHandler h) event = [Run h event]"
| "call (CatchAll hanldeFuncs) event = call_seq hanldeFuncs event"
| "call_seq [] event = []"
| "call_seq (hanldeFunc # rest) event =
     (let t = call hanldeFunc event
      in if NilPanic \<in> set t then t else t @ call_seq rest event)"

text \<open>
  The two \<^verbatim>\<open>go\<close> statements of \<^verbatim>\<open>eventConn.OnMessage\<close>. The first evaluates
  \<^verbatim>\<open>entry.handlers[noFilterKey]\<close> when it is started; the second is a closure over \<open>key\<close>
  and \<open>name\<close> that reads \<^verbatim>\<open>c.pluginEntries\<close> when it runs.
\<close>

datatype ('e, 'h) goroutine =
    GoNoFilter string "'h Handler" 'e
  | GoPair string string 'e

fun run_goroutine :: "('e, 'h) cqclient \<Rightarrow> ('e, 'h) goroutine \<Rightarrow> ('e, 'h) trace_event list" where
  "run_goroutine c (GoNoFilter name handler event) =
     HandlerCall name noFilterKey event # call handler event"
| "run_goroutine c (GoPair key name event) =
     FilterCall name key event #
     (case index_filter (fitlers (index_entry (pluginEntries c) name)) key of
        NilFilter \<Rightarrow> [NilPanic]
      | FilterFunc f \<Rightarrow>
          if f event
          then HandlerCall name key event #
               call (index_handler (handlers (index_entry (pluginEntries c) name)) key) event
          else [])"

definition spawn :: "string \<Rightarrow> ('e, 'h) pluginEntry \<Rightarrow> 'e \<Rightarrow> ('e, 'h) goroutine list" where
  "spawn name entry event =
     GoNoFilter name (index_handler (handlers entry) noFilterKey) event #
     map (\<lambda>key. GoPair key name event) (keys entry)"

text \<open>
  The loop over \<^verbatim>\<open>c.pluginEntries\<close>; \<open>order\<close> is the order in which \<^verbatim>\<open>range\<close> yields the
  names. The result is the list of goroutines started.
\<close>

definition dispatch :: "('e, 'h) cqclient \<Rightarrow> string list \<Rightarrow> 'e \<Rightarrow> ('e, 'h) goroutine list" where
  "dispatch c order event =
     concat (map (\<lambda>name. case pluginEntries c name of
                            None \<Rightarrow> []
                          | Some entry \<Rightarrow> spawn name entry event) order)"

text \<open>
  \<^verbatim>\<open>eventConn.OnMessage\<close>; \<open>unmarshal\<close> stands for \<^verbatim>\<open>json.Unmarshal\<close> into a \<^verbatim>\<open>CQEvent\<close>.
\<close>

definition eventConn_OnMessage ::
  "('raw \<Rightarrow> string + 'e) \<Rightarrow> string list \<Rightarrow> 'raw \<Rightarrow> ('e, 'h) cqclient \<Rightarrow>
   ('e, 'h) cqclient \<times> ('e, 'h) goroutine list" where
  "eventConn_OnMessage unmarshal order raw c =
     (case unmarshal raw of
        Inl err \<Rightarrow> (logf (OnMessageError (ConnName (eventConn c)) err) c, [])
      | Inr event \<Rightarrow> (c, dispatch c order event))"

text \<open>
  The events of one dispatch: those of each goroutine started, goroutine after goroutine.
  The goroutines share no state in this model, so each does the same under every schedule.
  In Go the panic of one goroutine ends the process, and with it the other goroutines,
  which is not modelled: a statement on what the goroutines of a dispatch do together is
  made for the dispatches whose events hold no \<open>NilPanic\<close>.
\<close>

definition dispatch_trace ::
  "('e, 'h) cqclient \<Rightarrow> string list \<Rightarrow> 'e \<Rightarrow> ('e, 'h) trace_event list" where
  "dispatch_trace c order event = concat (map (run_goroutine c) (dispatch c order event))"

text \<open>The events of the goroutines started for the entry \<open>name\<close>.\<close>

definition entry_trace :: "('e, 'h) cqclient \<Rightarrow> string \<Rightarrow> 'e \<Rightarrow> ('e, 'h) trace_event list" where
  "entry_trace c name event =
     concat (map (run_goroutine c)
       (case pluginEntries c name of None \<Rightarrow> [] | Some entry \<Rightarrow> spawn name entry event))"

section \<open>Notions used in the statements\<close>

text \<open>A key is paired when the plugin's handlers hold a function under it.\<close>

definition paired :: "(string \<times> 'h Handler) list \<Rightarrow> string \<Rightarrow> bool" where
  "paired pluginHandlers key = (index_handler (map_of pluginHandlers) key \<noteq> NilHandler)"

text \<open>A filter value accepts an event when it is a function that returns true on it.\<close>

definition accepts :: "'e Filter \<Rightarrow> 'e \<Rightarrow> bool" where
  "accepts flt event = (case flt of NilFilter \<Rightarrow> False | FilterFunc f \<Rightarrow> f event)"

text \<open>The pending set: the ids that the queue holds with state \<^verbatim>\<open>true\<close>.\<close>

definition pending :: "('e, 'h) cqclient \<Rightarrow> int64 set" where
  "pending c = {echo. index_bool (echoqueue c) echo}"

section \<open>Example plugins\<close>

text \<open>
  Events are strings and handler functions are named by strings. Plugins A and B are those
  of the spec's scenario; C has a filter without a handler and two handlers without a
  filter; the load of P fails; R uses the reserved key for a filter and a handler.
\<close>

definition isCommand :: "string \<Rightarrow> bool" where
  "isCommand event = (event = ''cmd'')"

definition pluginA :: "(string, string) plugin" where
  "pluginA =
     \<lparr>Name = ''A'', Load = None,
      Filters = [(''cmd'', FilterFunc isCommand)],
      Handlers = [(''cmd'', PluginHandler ''reply'')]\<rparr>"

definition pluginB :: "(string, string) plugin" where
  "pluginB =
     \<lparr>Name = ''B'', Load = None,
      Filters = [],
      Handlers = [([], PluginHandler ''logAll'')]\<rparr>"

definition pluginC :: "(string, string) plugin" where
  "pluginC =
     \<lparr>Name = ''C'', Load = None,
      Filters = [(''cmd'', FilterFunc isCommand), (''dead'', FilterFunc isCommand)],
      Handlers = [(''log'', PluginHandler ''logAll''), (''cmd'', PluginHandler ''reply''),
                  (''audit'', PluginHandler ''audit'')]\<rparr>"


definition pluginR :: "(string, string) plugin" where
  "pluginR =
     \<lparr>Name = ''R'', Load = None,
      Filters = [(noFilterKey, FilterFunc isCommand)],
      Handlers = [(noFilterKey, PluginHandler ''declared''), (''log'', PluginHandler ''logAll'')]\<rparr>"


text \<open>A connected client with an empty queue.\<close>

definition connectedClient :: "(string, string) cqclient" where
  "connectedClient =
     Client\<lparr>apiConn := \<lparr>ConnName = ''coolq api conn'', Connected = True, Sent = []\<rparr>\<rparr>"

section \<open>Properties of the correlation queue\<close>

lemma index_bool_None: "m k = None \<Longrightarrow> index_bool m k = False"
  by (simp add: index_bool_def)

lemma index_bool_Some: "m k = Some b \<Longrightarrow> index_bool m k = b"
  by (simp add: index_bool_def)

text \<open>
  C9. A command sent while the API connection is not connected is dropped: nothing is
  handed to the transport and the client, its log included, is what it was. The
  function has no result through which an error could be returned.
\<close>

theorem APISendJSON_disconnected_dropped:
  "\<not> IsAPIOk c \<Longrightarrow> APISendJSON marshal data c = c"
  by (simp add: APISendJSON_def)

theorem APISendJSON_disconnected_dropped_witness:
  "\<not> IsAPIOk (Client :: (string, string) cqclient) \<and>
   APISendJSON (\<lambda>data :: CQWSMessage. ''{}'')
     \<lparr>Action = ActionSendGroupMsg, Params = CQTypeSendGroupMsg 7 ''hi'', Echo = 100\<rparr>
     (Client :: (string, string) cqclient) = Client"
  using APISendJSON_disconnected_dropped
    [of "Client :: (string, string) cqclient" "\<lambda>data :: CQWSMessage. ''{}''"
        "\<lparr>Action = ActionSendGroupMsg, Params = CQTypeSendGroupMsg 7 ''hi'', Echo = 100\<rparr>"]
  by (simp add: IsAPIOk_def IsConnected_def Client_def)

lemma APISendJSON_echoqueue: "echoqueue (APISendJSON marshal data c) = echoqueue c"
  by (simp add: APISendJSON_def)

lemma send_commands_echoqueue:
  "echoqueue (SendGroupMsg marshal now g m c) = echoqueue c"
  "echoqueue (SendPrivateMsg marshal now u m c) = echoqueue c"
  "echoqueue (SetGroupKick marshal now g u r c) = echoqueue c"
  "echoqueue (SetGroupBan marshal now g u d c) = echoqueue c"
  "echoqueue (SetGroupWholeBan marshal now g b c) = echoqueue c"
  by (simp_all add: SendGroupMsg_def SendPrivateMsg_def SetGroupKick_def SetGroupBan_def
      SetGroupWholeBan_def APISendJSON_echoqueue)

text \<open>
  C1. On a connected client with an empty queue, \<^verbatim>\<open>SendGroupMsg\<close> at clock value 100
  hands the frame with echo 100 to the transport, and the queue is still empty afterwards:
  the echo is not pending. No command writes \<^verbatim>\<open>echoqueue\<close>.
\<close>

theorem SendGroupMsg_echo_not_recorded:
  "IsAPIOk connectedClient \<and>
   Sent (apiConn (SendGroupMsg marshal 100 7 ''hi'' connectedClient)) =
     [(TextMessage,
       marshal \<lparr>Action = ActionSendGroupMsg, Params = CQTypeSendGroupMsg 7 ''hi'', Echo = 100\<rparr>)] \<and>
   echoqueue (SendGroupMsg marshal 100 7 ''hi'' connectedClient) 100 = None \<and>
   100 \<notin> pending (SendGroupMsg marshal 100 7 ''hi'' connectedClient)"
  by (simp add: SendGroupMsg_def APISendJSON_def IsAPIOk_def IsConnected_def Send_def
      connectedClient_def Client_def pending_def index_bool_def)

lemma resolveEcho_tracked:
  "echoqueue c echo = Some True \<Longrightarrow>
   resolveEcho echo c = c\<lparr>echoqueue := (echoqueue c)(echo := None)\<rparr>"
  by (simp add: resolveEcho_def index_bool_def deqEcho_def)

lemma resolveEcho_untracked:
  "echoqueue c echo \<noteq> Some True \<Longrightarrow> resolveEcho echo c = c"
  by (cases "echoqueue c echo") (auto simp: resolveEcho_def index_bool_def)

lemma resolveEcho_idem: "resolveEcho echo (resolveEcho echo c) = resolveEcho echo c"
  by (simp add: resolveEcho_def index_bool_def deqEcho_def)

text \<open>
  C4. Let a reply decode to an envelope with echo \<open>echo\<close>. If the queue holds \<open>echo\<close> as
  pending, the reply removes it (and nothing else) from the queue, so it is no longer in the
  pending set. If \<open>echo\<close> is not pending, the client is unchanged. Handling the same reply a
  second time changes nothing.
\<close>

theorem resolve_round_trip:
  assumes "unmarshal raw = Inr msg" and "RespEcho msg = echo"
  shows "(echoqueue c echo = Some True \<longrightarrow>
            echoqueue (apiConn_OnMessage unmarshal raw c) = (echoqueue c)(echo := None) \<and>
            echo \<notin> pending (apiConn_OnMessage unmarshal raw c)) \<and>
         (echo \<notin> pending c \<longrightarrow> apiConn_OnMessage unmarshal raw c = c) \<and>
         apiConn_OnMessage unmarshal raw (apiConn_OnMessage unmarshal raw c) =
           apiConn_OnMessage unmarshal raw c"
proof -
  have on: "apiConn_OnMessage unmarshal raw c = resolveEcho echo c"
    "apiConn_OnMessage unmarshal raw (resolveEcho echo c) = resolveEcho echo (resolveEcho echo c)"
    using assms by (simp_all add: apiConn_OnMessage_def)
  have untracked: "echo \<notin> pending c \<longrightarrow> resolveEcho echo c = c"
    by (simp add: pending_def resolveEcho_def)
  have tracked: "echoqueue c echo = Some True \<longrightarrow>
      echoqueue (resolveEcho echo c) = (echoqueue c)(echo := None) \<and>
      echo \<notin> pending (resolveEcho echo c)"
    by (simp add: resolveEcho_tracked pending_def index_bool_def)
  from tracked untracked resolveEcho_idem [of echo c] show ?thesis
    unfolding on by blast
qed

theorem resolve_round_trip_witness:
  "(echoqueue ((Client :: (string, string) cqclient)\<lparr>echoqueue := [100 \<mapsto> True]\<rparr>) 100 = Some True \<and>
    echoqueue (apiConn_OnMessage (\<lambda>raw :: string. Inr \<lparr>RetCode = 0, Data = JNull, RespEcho = 100\<rparr>)
       ''{}'' ((Client :: (string, string) cqclient)\<lparr>echoqueue := [100 \<mapsto> True]\<rparr>)) = Map.empty) \<and>
   (100 \<notin> pending (Client :: (string, string) cqclient) \<and>
    apiConn_OnMessage (\<lambda>raw :: string. Inr \<lparr>RetCode = 0, Data = JNull, RespEcho = 100\<rparr>)
       ''{}'' (Client :: (string, string) cqclient) = Client)"
  using resolve_round_trip
    [of "\<lambda>raw :: string. Inr \<lparr>RetCode = 0, Data = JNull, RespEcho = 100\<rparr>" "''{}''"
        "\<lparr>RetCode = 0, Data = JNull, RespEcho = 100\<rparr>" 100
        "(Client :: (string, string) cqclient)\<lparr>echoqueue := [100 \<mapsto> True]\<rparr>"]
    resolve_round_trip
    [of "\<lambda>raw :: string. Inr \<lparr>RetCode = 0, Data = JNull, RespEcho = 100\<rparr>" "''{}''"
        "\<lparr>RetCode = 0, Data = JNull, RespEcho = 100\<rparr>" 100
        "Client :: (string, string) cqclient"]
  by (simp add: Client_def pending_def index_bool_def)

subsection \<open>The sweep\<close>

text \<open>
  For clock values and echoes that are non-negative (Unix seconds), the age the sweep
  computes is the difference of the two integers: the subtraction does not wrap.
\<close>

lemma sint_sub_nonneg:
  fixes now echo :: int64
  assumes "0 \<le> sint echo" and "0 \<le> sint now"
  shows "sint (now - echo) = sint now - sint echo"
proof -
  have b1: "sint echo < 2 ^ 63" using sint_lt [of echo] by simp
  have b2: "sint now < 2 ^ 63" using sint_lt [of now] by simp
  have "- (2 ^ 63) \<le> sint now - sint echo" and "sint now - sint echo < 2 ^ 63"
    using assms b1 b2 by auto
  then show ?thesis
    by (simp add: sint_word_ariths signed_take_bit_int_eq_self)
qed

lemma sweep_keeps_None:
  "echoqueue c k = None \<Longrightarrow> echoqueue (sweep now order c) k = None"
  by (induction order arbitrary: c) (auto simp: deqEcho_def logf_def split: option.splits)

lemma sweep_logs_mono:
  "l \<in> set (logs c) \<Longrightarrow> l \<in> set (logs (sweep now order c))"
  by (induction order arbitrary: c) (auto simp: deqEcho_def logf_def split: option.splits)

lemma sweep_keeps_fresh:
  "\<not> (echoqueue c k = Some True \<and> sint timeForWait < sint (now - k)) \<Longrightarrow>
   echoqueue (sweep now order c) k = echoqueue c k"
  by (induction order arbitrary: c) (auto simp: deqEcho_def logf_def split: option.splits)

lemma sweep_evicts:
  assumes "echo \<in> set order" and "echoqueue c echo = Some True"
    and "sint timeForWait < sint (now - echo)"
  shows "echoqueue (sweep now order c) echo = None \<and>
         EchoTimeout echo \<in> set (logs (sweep now order c))"
  using assms
proof (induction order arbitrary: c)
  case Nil
  then show ?case by simp
next
  case (Cons k rest)
  show ?case
  proof (cases "k = echo")
    case True
    let ?c' = "deqEcho echo (logf (EchoTimeout echo) c)"
    have "echoqueue ?c' echo = None" by (simp add: deqEcho_def)
    moreover have "EchoTimeout echo \<in> set (logs ?c')" by (simp add: deqEcho_def logf_def)
    ultimately show ?thesis using True Cons.prems
      by (simp add: sweep_keeps_None sweep_logs_mono)
  next
    case False
    then have in_rest: "echo \<in> set rest" using Cons.prems(1) by simp
    have keep: "echoqueue (deqEcho k (logf (EchoTimeout k) c)) echo = Some True"
      using False Cons.prems(2) by (simp add: deqEcho_def logf_def)
    show ?thesis
      using Cons.IH [OF in_rest Cons.prems(2) Cons.prems(3)]
        Cons.IH [OF in_rest keep Cons.prems(3)]
      by (simp split: option.splits)
  qed
qed

text \<open>
  C5. Let the queue hold \<open>echo\<close> as pending, and let a pass of the sweep range over the
  queue at a clock value \<open>now\<close> with \<open>now - echo > 30\<close> (the echo is the second at which the
  command was sent, so this is its age). The pass logs the time-out of \<open>echo\<close> and removes
  it from the queue, and a reply with that echo arriving afterwards changes nothing.
\<close>

theorem sweep_expires_pending:
  assumes "set order = dom (echoqueue c)" and "echoqueue c echo = Some True"
    and "sint (now - echo) > 30"
  shows "EchoTimeout echo \<in> set (logs (sweep now order c)) \<and>
         echo \<notin> dom (echoqueue (sweep now order c)) \<and>
         echo \<notin> pending (sweep now order c) \<and>
         resolveEcho echo (sweep now order c) = sweep now order c"
proof -
  have "echo \<in> set order" using assms(1,2) by auto
  moreover have "sint timeForWait < sint (now - echo)"
    using assms(3) by (simp add: timeForWait_def)
  ultimately have gone: "echoqueue (sweep now order c) echo = None"
    and logged: "EchoTimeout echo \<in> set (logs (sweep now order c))"
    using sweep_evicts [of echo order c now] assms(2) by simp_all
  from gone have "echo \<notin> pending (sweep now order c)"
    by (simp add: pending_def index_bool_def)
  with gone logged show ?thesis
    by (simp add: resolveEcho_untracked domIff)
qed

theorem sweep_expires_pending_witness:
  "set [100, 190] = dom (echoqueue ((Client :: (string, string) cqclient)
      \<lparr>echoqueue := [100 \<mapsto> True, 190 \<mapsto> True]\<rparr>)) \<and>
   sint (200 - 100 :: int64) > 30 \<and>
   logs (sweep 200 [100, 190] ((Client :: (string, string) cqclient)
      \<lparr>echoqueue := [100 \<mapsto> True, 190 \<mapsto> True]\<rparr>)) = [EchoTimeout 100] \<and>
   100 \<notin> dom (echoqueue (sweep 200 [100, 190] ((Client :: (string, string) cqclient)
      \<lparr>echoqueue := [100 \<mapsto> True, 190 \<mapsto> True]\<rparr>))) \<and>
   190 \<in> dom (echoqueue (sweep 200 [100, 190] ((Client :: (string, string) cqclient)
      \<lparr>echoqueue := [100 \<mapsto> True, 190 \<mapsto> True]\<rparr>)))"
  using sweep_expires_pending
    [of "[100, 190]" "(Client :: (string, string) cqclient)\<lparr>echoqueue := [100 \<mapsto> True, 190 \<mapsto> True]\<rparr>"
        100 200]
  by (auto simp: Client_def timeForWait_def deqEcho_def logf_def)

section \<open>Properties of registration\<close>

lemma pairFilters_Cons:
  "pairFilters n hs ((key, flt) # rest) p =
     (if paired hs key
      then pairFilters n hs rest
             (p\<lparr>hasFilter := (hasFilter p)(key \<mapsto> True),
                entry' := (entry' p)
                  \<lparr>keys := keys (entry' p) @ [key],
                   fitlers := (fitlers (entry' p))(key \<mapsto> flt),
                   handlers := (handlers (entry' p))(key \<mapsto> index_handler (map_of hs) key)\<rparr>\<rparr>)
      else pairFilters n hs rest (p\<lparr>warned := warned p @ [UnusedKeyWarning n key]\<rparr>))"
  by (simp add: paired_def Let_def)

lemma pairFilters_keys:
  "keys (entry' (pairFilters n hs fs p)) = keys (entry' p) @ filter (paired hs) (map fst fs)"
  by (induction fs arbitrary: p) (auto simp: pairFilters_Cons simp del: pairFilters.simps(2))

lemma pairFilters_warned:
  "warned (pairFilters n hs fs p) =
   warned p @ map (UnusedKeyWarning n) (filter (\<lambda>k. \<not> paired hs k) (map fst fs))"
  by (induction fs arbitrary: p) (auto simp: pairFilters_Cons simp del: pairFilters.simps(2))

lemma pairFilters_hasFilter:
  "hasFilter (pairFilters n hs fs p) k =
   (if k \<in> set (filter (paired hs) (map fst fs)) then Some True else hasFilter p k)"
proof (induction fs arbitrary: p)
  case Nil
  then show ?case by simp
next
  case (Cons a fs)
  obtain key flt where a: "a = (key, flt)" by (cases a)
  show ?case
    unfolding a pairFilters_Cons
    by (cases "key = k") (simp_all add: Cons.IH)
qed

lemma pairFilters_handlers:
  "handlers (entry' (pairFilters n hs fs p)) k =
   (if k \<in> set (filter (paired hs) (map fst fs)) then Some (index_handler (map_of hs) k)
    else handlers (entry' p) k)"
proof (induction fs arbitrary: p)
  case Nil
  then show ?case by simp
next
  case (Cons a fs)
  obtain key flt where a: "a = (key, flt)" by (cases a)
  show ?case
    unfolding a pairFilters_Cons
    by (cases "key = k") (simp_all add: Cons.IH)
qed

lemma pairFilters_fitlers:
  "distinct (map fst fs) \<Longrightarrow>
   fitlers (entry' (pairFilters n hs fs p)) k =
   (if k \<in> set (filter (paired hs) (map fst fs)) then map_of fs k else fitlers (entry' p) k)"
proof (induction fs arbitrary: p)
  case Nil
  then show ?case by simp
next
  case (Cons a fs)
  obtain key flt where a: "a = (key, flt)" by (cases a)
  have d: "distinct (map fst fs)" and nk: "key \<notin> fst ` set fs"
    using Cons.prems a by auto
  show ?case
    unfolding a pairFilters_Cons
    using nk by (cases "key = k") (simp_all add: Cons.IH [OF d])
qed

lemma pairFilters_fitlers_unpaired:
  "\<not> paired hs k \<Longrightarrow> fitlers (entry' (pairFilters n hs fs p)) k = fitlers (entry' p) k"
proof (induction fs arbitrary: p)
  case Nil
  then show ?case by simp
next
  case (Cons a fs)
  obtain key flt where a: "a = (key, flt)" by (cases a)
  show ?case
    unfolding a pairFilters_Cons
    using Cons.prems by (cases "key = k") (simp_all add: Cons.IH)
qed

subsection \<open>The entry built for a plugin\<close>

lemma buildEntry_keys:
  "keys (fst (buildEntry plug)) = filter (paired (Handlers plug)) (map fst (Filters plug))"
  by (simp add: buildEntry_def afterFilters_def pairFilters_keys)

lemma buildEntry_warnings:
  "snd (buildEntry plug) =
   map (UnusedKeyWarning (Name plug))
     (filter (\<lambda>k. \<not> paired (Handlers plug) k) (map fst (Filters plug)))"
  by (simp add: buildEntry_def afterFilters_def pairFilters_warned)

lemma hasFilter_afterFilters:
  "index_bool (hasFilter (afterFilters plug)) k = (k \<in> set (keys (fst (buildEntry plug))))"
  by (simp add: buildEntry_keys afterFilters_def pairFilters_hasFilter index_bool_def)

lemma concat_if_filter:
  "concat (map (\<lambda>(key, handler). if P key then [handler] else []) hs) =
   map snd (filter (\<lambda>(k, h). P k) hs)"
  by (induction hs) auto

lemma noFilterHanlers_eq:
  "noFilterHanlers plug =
   map snd (filter (\<lambda>(k, h). k \<notin> set (keys (fst (buildEntry plug)))) (Handlers plug))"
  unfolding noFilterHanlers_def hasFilter_afterFilters by (rule concat_if_filter)

lemma buildEntry_handlers:
  "handlers (fst (buildEntry plug)) k =
   (if k = noFilterKey then Some (CatchAll (noFilterHanlers plug))
    else if k \<in> set (keys (fst (buildEntry plug)))
         then Some (index_handler (map_of (Handlers plug)) k)
    else None)"
  by (simp add: buildEntry_keys)
     (simp add: buildEntry_def afterFilters_def pairFilters_handlers)

lemma buildEntry_fitlers:
  "distinct (map fst (Filters plug)) \<Longrightarrow>
   fitlers (fst (buildEntry plug)) k =
   (if k \<in> set (keys (fst (buildEntry plug))) then map_of (Filters plug) k else None)"
  by (simp add: buildEntry_keys)
     (simp add: buildEntry_def afterFilters_def pairFilters_fitlers)

lemma buildEntry_fitlers_unpaired:
  "\<not> paired (Handlers plug) k \<Longrightarrow> fitlers (fst (buildEntry plug)) k = None"
  by (simp add: buildEntry_def afterFilters_def pairFilters_fitlers_unpaired)

lemma buildEntry_keys_distinct:
  "distinct (map fst (Filters plug)) \<Longrightarrow> distinct (keys (fst (buildEntry plug)))"
  by (simp add: buildEntry_keys)

lemma paired_no_nil:
  "NilHandler \<notin> snd ` set hs \<Longrightarrow> paired hs k = (k \<in> fst ` set hs)"
proof (induction hs)
  case Nil
  then show ?case by (simp add: paired_def index_handler_def)
next
  case (Cons a hs)
  obtain key h where a: "a = (key, h)" by (cases a)
  from Cons show ?case
    by (cases "key = k") (auto simp: a paired_def index_handler_def)
qed

subsection \<open>The registry after registration\<close>

lemma loadPlugins_eq:
  "loadPlugins entries loaded c =
   (loaded @ filter (\<lambda>p. Load p = None) entries,
    c\<lparr>logs := logs c @
       concat (map (\<lambda>p. case Load p of None \<Rightarrow> [] | Some err \<Rightarrow> [PluginLoadError (Name p) err])
                 entries)\<rparr>)"
  by (induction entries arbitrary: loaded c) (auto simp: logf_def split: option.splits)

lemma registerPlugin_simps:
  "pluginEntries (registerPlugin plug c) =
     (pluginEntries c)(Name plug \<mapsto> fst (buildEntry plug))"
  "logs (registerPlugin plug c) = logs c @ snd (buildEntry plug)"
  "echoqueue (registerPlugin plug c) = echoqueue c"
  by (simp_all add: registerPlugin_def split: prod.splits)

lemma fold_registerPlugin_other:
  "n \<notin> Name ` set ps \<Longrightarrow>
   pluginEntries (fold registerPlugin ps c) n = pluginEntries c n"
  by (induction ps arbitrary: c) (auto simp: registerPlugin_simps)

lemma fold_registerPlugin_entry:
  "distinct (map Name ps) \<Longrightarrow> p \<in> set ps \<Longrightarrow>
   pluginEntries (fold registerPlugin ps c) (Name p) = Some (fst (buildEntry p))"
proof (induction ps arbitrary: c)
  case Nil
  then show ?case by simp
next
  case (Cons a ps)
  show ?case
  proof (cases "p \<in> set ps")
    case True
    with Cons show ?thesis by simp
  next
    case False
    then have "p = a" using Cons.prems by simp
    moreover have "Name a \<notin> Name ` set ps" using Cons.prems by simp
    ultimately show ?thesis
      by (simp add: fold_registerPlugin_other registerPlugin_simps)
  qed
qed


lemma RegisterAllPlugins_eq:
  "RegisterAllPlugins entries c =
   (fold registerPlugin (filter (\<lambda>p. Load p = None) entries)
      (c\<lparr>logs := logs c @
         concat (map (\<lambda>p. case Load p of None \<Rightarrow> [] | Some err \<Rightarrow> [PluginLoadError (Name p) err])
                   entries)\<rparr>),
    map Name (filter (\<lambda>p. Load p = None) entries))"
  by (simp add: RegisterAllPlugins_def loadPlugins_eq)

lemma RegisterAllPlugins_loaded:
  assumes "distinct (map Name entries)" and "q \<in> set entries" and "Load q = None"
  shows "pluginEntries (fst (RegisterAllPlugins entries c)) (Name q) = Some (fst (buildEntry q))"
proof -
  have "distinct (map Name (filter (\<lambda>p. Load p = None) entries))"
    using assms(1) by (simp add: distinct_map_filter)
  moreover have "q \<in> set (filter (\<lambda>p. Load p = None) entries)"
    using assms(2,3) by simp
  ultimately show ?thesis
    unfolding RegisterAllPlugins_eq fst_conv by (rule fold_registerPlugin_entry)
qed






section \<open>Properties of dispatch\<close>

lemma call_no_slot_events:
  fixes h :: "'h Handler" and hs :: "'h Handler list" and ev e :: 'e
  shows "HandlerCall n k e \<notin> set (call h ev) \<and> FilterCall n k e \<notin> set (call h ev)"
    and "HandlerCall n k e \<notin> set (call_seq hs ev) \<and> FilterCall n k e \<notin> set (call_seq hs ev)"
  by (induction h ev and hs ev rule: call_call_seq.induct) (auto simp: Let_def)

lemma call_seq_funcs: "call_seq (map PluginHandler xs) e = map (\<lambda>x. Run x e) xs"
  by (induction xs) simp_all

lemma dispatch_trace_eq:
  "dispatch_trace c order e = concat (map (\<lambda>name. entry_trace c name e) order)"
  by (induction order) (simp_all add: dispatch_trace_def dispatch_def entry_trace_def)

lemma entry_trace_None: "pluginEntries c name = None \<Longrightarrow> entry_trace c name e = []"
  by (simp add: entry_trace_def)

lemma entry_trace_Some:
  "pluginEntries c name = Some entry \<Longrightarrow>
   entry_trace c name e =
     run_goroutine c (GoNoFilter name (index_handler (handlers entry) noFilterKey) e) @
     concat (map (\<lambda>key. run_goroutine c (GoPair key name e)) (keys entry))"
  by (simp add: entry_trace_def spawn_def comp_def)

lemma count_concat_map_unique:
  "distinct xs \<Longrightarrow> x \<in> set xs \<Longrightarrow> (\<And>y. y \<in> set xs \<Longrightarrow> y \<noteq> x \<Longrightarrow> ev \<notin> set (g y)) \<Longrightarrow>
   count_list (concat (map g xs)) ev = count_list (g x) ev"
proof (induction xs)
  case Nil
  then show ?case by simp
next
  case (Cons a xs)
  show ?case
  proof (cases "a = x")
    case True
    then have "x \<notin> set xs" using Cons.prems(1) by simp
    then have "\<And>y. y \<in> set xs \<Longrightarrow> ev \<notin> set (g y)" using Cons.prems(3) by auto
    then have "ev \<notin> set (concat (map g xs))" by auto
    then show ?thesis using True by simp
  next
    case False
    then have "x \<in> set xs" using Cons.prems(2) by simp
    moreover have "ev \<notin> set (g a)" using Cons.prems(3) [of a] False by simp
    ultimately show ?thesis using Cons by simp
  qed
qed

lemma run_GoPair_HandlerCall:
  "HandlerCall n k e \<in> set (run_goroutine c (GoPair key name ev)) \<Longrightarrow>
   n = name \<and> k = key \<and> e = ev"
  by (auto simp: call_no_slot_events split: Filter.splits if_splits)

lemma run_GoPair_FilterCall:
  "FilterCall n k e \<in> set (run_goroutine c (GoPair key name ev)) \<Longrightarrow>
   n = name \<and> k = key \<and> e = ev"
  by (auto simp: call_no_slot_events split: Filter.splits if_splits)

lemma count_run_GoPair:
  "pluginEntries c name = Some entry \<Longrightarrow>
   count_list (run_goroutine c (GoPair key name e)) (HandlerCall name key e) =
   (if accepts (index_filter (fitlers entry) key) e then 1 else 0)"
  by (auto simp: accepts_def index_entry_def call_no_slot_events split: Filter.splits)

lemma entry_trace_HandlerCall_name:
  "HandlerCall n k e \<in> set (entry_trace c name ev) \<Longrightarrow> n = name"
  by (cases "pluginEntries c name")
     (auto simp: entry_trace_None entry_trace_Some call_no_slot_events
           simp del: run_goroutine.simps(2) dest: run_GoPair_HandlerCall)

lemma entry_trace_FilterCall:
  "FilterCall n k e \<in> set (entry_trace c name ev) \<Longrightarrow>
   n = name \<and> k \<in> set (keys (index_entry (pluginEntries c) name))"
  by (cases "pluginEntries c name")
     (auto simp: entry_trace_None entry_trace_Some call_no_slot_events index_entry_def
           simp del: run_goroutine.simps(2) dest: run_GoPair_FilterCall)

lemma dispatch_trace_FilterCall:
  "FilterCall n k e \<in> set (dispatch_trace c order ev) \<Longrightarrow>
   k \<in> set (keys (index_entry (pluginEntries c) n))"
  by (auto simp: dispatch_trace_eq dest: entry_trace_FilterCall)

lemma count_keyed_units:
  assumes "pluginEntries c name = Some entry" and "distinct ks"
  shows "count_list (concat (map (\<lambda>key. run_goroutine c (GoPair key name e)) ks))
           (HandlerCall name K e) =
         (if K \<in> set ks \<and> accepts (index_filter (fitlers entry) K) e then 1 else 0)"
proof (cases "K \<in> set ks")
  case True
  have "count_list (concat (map (\<lambda>key. run_goroutine c (GoPair key name e)) ks))
           (HandlerCall name K e) =
        count_list (run_goroutine c (GoPair K name e)) (HandlerCall name K e)"
    using assms(2) True
    by (rule count_concat_map_unique)
       (auto simp del: run_goroutine.simps(2) dest: run_GoPair_HandlerCall)
  then show ?thesis using True assms(1) by (simp only: count_run_GoPair) simp
next
  case False
  then have "HandlerCall name K e \<notin>
      set (concat (map (\<lambda>key. run_goroutine c (GoPair key name e)) ks))"
    by (auto simp del: run_goroutine.simps(2) dest: run_GoPair_HandlerCall)
  then show ?thesis using False by simp
qed

lemma count_entry_trace:
  assumes "pluginEntries c name = Some entry" and "distinct (keys entry)"
  shows "count_list (entry_trace c name e) (HandlerCall name K e) =
         (if K = noFilterKey then 1 else 0) +
         (if K \<in> set (keys entry) \<and> accepts (index_filter (fitlers entry) K) e then 1 else 0)"
  using assms
  by (simp add: entry_trace_Some count_keyed_units call_no_slot_events
      del: run_goroutine.simps(2))

lemma count_HandlerCall:
  assumes "distinct order" and "name \<in> set order"
    and "pluginEntries c name = Some entry" and "distinct (keys entry)"
  shows "count_list (dispatch_trace c order e) (HandlerCall name K e) =
         (if K = noFilterKey then 1 else 0) +
         (if K \<in> set (keys entry) \<and> accepts (index_filter (fitlers entry) K) e then 1 else 0)"
proof -
  have "count_list (dispatch_trace c order e) (HandlerCall name K e) =
        count_list (entry_trace c name e) (HandlerCall name K e)"
    unfolding dispatch_trace_eq using assms(1,2)
    by (rule count_concat_map_unique) (auto dest: entry_trace_HandlerCall_name)
  then show ?thesis using assms(3,4) by (simp only: count_entry_trace)
qed

lemma spawn_in_dispatch:
  "pluginEntries c name = Some entry \<Longrightarrow> name \<in> set order \<Longrightarrow>
   set (spawn name entry e) \<subseteq> set (dispatch c order e)"
  by (auto simp: dispatch_def intro!: bexI [of _ name])

lemma dispatch_GoPair:
  assumes "GoPair k n e \<in> set (dispatch c order ev)"
  shows "k \<in> set (keys (index_entry (pluginEntries c) n))"
proof -
  from assms obtain name entry where "pluginEntries c name = Some entry"
    and "GoPair k n e \<in> set (spawn name entry ev)"
    by (auto simp: dispatch_def split: option.splits) metis
  then show ?thesis by (auto simp: spawn_def index_entry_def)
qed

lemma buildEntry_fitlers_keys:
  assumes "distinct (map fst (Filters plug))"
    and "fitlers (fst (buildEntry plug)) K = Some flt"
  shows "K \<in> set (keys (fst (buildEntry plug)))"
  using assms by (simp add: buildEntry_fitlers split: if_splits)


lemma pluginR_entry:
  "keys (fst (buildEntry pluginR)) = [noFilterKey]"
  "fitlers (fst (buildEntry pluginR)) = [noFilterKey \<mapsto> FilterFunc isCommand]"
  "handlers (fst (buildEntry pluginR)) = [noFilterKey \<mapsto> CatchAll [PluginHandler ''logAll'']]"
  by (simp_all add: buildEntry_def afterFilters_def noFilterHanlers_def index_handler_def
      index_bool_def pluginR_def noFilterKey_def)



lemma pluginA_entry:
  "keys (fst (buildEntry pluginA)) = [''cmd'']"
  "fitlers (fst (buildEntry pluginA)) = [''cmd'' \<mapsto> FilterFunc isCommand]"
  "handlers (fst (buildEntry pluginA)) =
     [''cmd'' \<mapsto> PluginHandler ''reply'', noFilterKey \<mapsto> CatchAll []]"
  by (simp_all add: buildEntry_def afterFilters_def noFilterHanlers_def index_handler_def
      index_bool_def pluginA_def noFilterKey_def)

lemma pluginB_entry:
  "keys (fst (buildEntry pluginB)) = []"
  "fitlers (fst (buildEntry pluginB)) = Map.empty"
  "handlers (fst (buildEntry pluginB)) = [noFilterKey \<mapsto> CatchAll [PluginHandler ''logAll'']]"
  by (simp_all add: buildEntry_def afterFilters_def noFilterHanlers_def index_handler_def
      index_bool_def pluginB_def noFilterKey_def)

lemma pluginC_entry:
  "keys (fst (buildEntry pluginC)) = [''cmd'']"
  "fitlers (fst (buildEntry pluginC)) = [''cmd'' \<mapsto> FilterFunc isCommand]"
  "handlers (fst (buildEntry pluginC)) =
     [''cmd'' \<mapsto> PluginHandler ''reply'',
      noFilterKey \<mapsto> CatchAll [PluginHandler ''logAll'', PluginHandler ''audit'']]"
  by (simp_all add: buildEntry_def afterFilters_def noFilterHanlers_def index_handler_def
      index_bool_def pluginC_def noFilterKey_def)


lemma trace_AB:
  "dispatch_trace (fst (RegisterAllPlugins [pluginA, pluginB] Client)) [''A'', ''B''] ''cmd'' =
     [HandlerCall ''A'' noFilterKey ''cmd'',
      FilterCall ''A'' ''cmd'' ''cmd'', HandlerCall ''A'' ''cmd'' ''cmd'', Run ''reply'' ''cmd'',
      HandlerCall ''B'' noFilterKey ''cmd'', Run ''logAll'' ''cmd'']"
  "dispatch_trace (fst (RegisterAllPlugins [pluginA, pluginB] Client)) [''A'', ''B''] ''hello'' =
     [HandlerCall ''A'' noFilterKey ''hello'',
      FilterCall ''A'' ''cmd'' ''hello'',
      HandlerCall ''B'' noFilterKey ''hello'', Run ''logAll'' ''hello'']"
proof -
  let ?c = "fst (RegisterAllPlugins [pluginA, pluginB] Client) :: (string, string) cqclient"
  have "pluginEntries ?c (Name pluginA) = Some (fst (buildEntry pluginA))"
    by (rule RegisterAllPlugins_loaded) (simp_all add: pluginA_def pluginB_def)
  then have a: "pluginEntries ?c ''A'' = Some (fst (buildEntry pluginA))"
    by (simp add: pluginA_def)
  have "pluginEntries ?c (Name pluginB) = Some (fst (buildEntry pluginB))"
    by (rule RegisterAllPlugins_loaded) (simp_all add: pluginA_def pluginB_def)
  then have b: "pluginEntries ?c ''B'' = Some (fst (buildEntry pluginB))"
    by (simp add: pluginB_def)
  have k: "''cmd'' \<noteq> noFilterKey" by (simp add: noFilterKey_def)
  show "dispatch_trace ?c [''A'', ''B''] ''cmd'' =
     [HandlerCall ''A'' noFilterKey ''cmd'',
      FilterCall ''A'' ''cmd'' ''cmd'', HandlerCall ''A'' ''cmd'' ''cmd'', Run ''reply'' ''cmd'',
      HandlerCall ''B'' noFilterKey ''cmd'', Run ''logAll'' ''cmd'']"
    using a b k by (simp add: dispatch_trace_def dispatch_def spawn_def pluginA_entry pluginB_entry
        index_handler_def index_filter_def index_entry_def isCommand_def)
  show "dispatch_trace ?c [''A'', ''B''] ''hello'' =
     [HandlerCall ''A'' noFilterKey ''hello'',
      FilterCall ''A'' ''cmd'' ''hello'',
      HandlerCall ''B'' noFilterKey ''hello'', Run ''logAll'' ''hello'']"
    using a b k by (simp add: dispatch_trace_def dispatch_def spawn_def pluginA_entry pluginB_entry
        index_handler_def index_filter_def index_entry_def isCommand_def)
qed

lemma trace_C:
  "dispatch_trace (fst (RegisterAllPlugins [pluginC] Client)) [''C''] ''hello'' =
     [HandlerCall ''C'' noFilterKey ''hello'', Run ''logAll'' ''hello'', Run ''audit'' ''hello'',
      FilterCall ''C'' ''cmd'' ''hello'']"
proof -
  let ?c = "fst (RegisterAllPlugins [pluginC] Client) :: (string, string) cqclient"
  have "pluginEntries ?c (Name pluginC) = Some (fst (buildEntry pluginC))"
    by (rule RegisterAllPlugins_loaded) (simp_all add: pluginC_def)
  then have a: "pluginEntries ?c ''C'' = Some (fst (buildEntry pluginC))"
    by (simp add: pluginC_def)
  have k: "''cmd'' \<noteq> noFilterKey" by (simp add: noFilterKey_def)
  show ?thesis
    using a k by (simp add: dispatch_trace_def dispatch_def spawn_def pluginC_entry
        index_handler_def index_filter_def index_entry_def isCommand_def)
qed

lemma count_list_distinct: "distinct xs \<Longrightarrow> x \<in> set xs \<Longrightarrow> count_list xs x = 1"
  by (induction xs) auto

lemma eventConn_OnMessage_dispatch:
  "unmarshal raw = Inr event \<Longrightarrow>
   eventConn_OnMessage unmarshal order raw c = (c, dispatch c order event)"
  by (simp add: eventConn_OnMessage_def)

lemma eventConn_OnMessage_error:
  "unmarshal raw = Inl err \<Longrightarrow> snd (eventConn_OnMessage unmarshal order raw c) = []"
  by (simp add: eventConn_OnMessage_def)

section \<open>The claims on registration and dispatch\<close>

text \<open>
  In the statements below the client \<open>c\<close> holds, under the name of the plugin, the entry
  that registration builds for it, and \<open>order\<close> is a range order of the registry.
\<close>

text \<open>
  C2, amended. Let \<open>K\<close> be a key other than the reserved key that is present in the
  filters and in the handlers of a plugin's entry, the filter being a function \<open>f\<close>, and
  let no goroutine of the dispatch of an event panic. That dispatch starts exactly one
  goroutine for \<open>K\<close>; the handler slot \<open>K\<close> of the entry is called once if \<open>f\<close>
  returns true on the event and not at all otherwise; the goroutine started for \<open>K\<close>
  evaluates the filter and, when it returns false, does nothing else.
\<close>

theorem keyed_handler_iff_filter:
  fixes c :: "('e, 'h) cqclient"
  assumes "pluginEntries c (Name plug) = Some (fst (buildEntry plug))"
    and "distinct (map fst (Filters plug))"
    and "distinct order" and "set order = dom (pluginEntries c)"
    and "NilPanic \<notin> set (dispatch_trace c order event)"
    and "fitlers (fst (buildEntry plug)) K = Some (FilterFunc f)"
    and "K \<in> dom (handlers (fst (buildEntry plug)))"
    and "K \<noteq> noFilterKey"
  shows "count_list (dispatch c order event) (GoPair K (Name plug) event) = 1 \<and>
         count_list (dispatch_trace c order event) (HandlerCall (Name plug) K event) =
           (if f event then 1 else 0) \<and>
         run_goroutine c (GoPair K (Name plug) event) =
           (if f event
            then FilterCall (Name plug) K event # HandlerCall (Name plug) K event #
                 call (index_handler (handlers (fst (buildEntry plug))) K) event
            else [FilterCall (Name plug) K event])"
proof -
  let ?entry = "fst (buildEntry plug)"
  have K: "K \<in> set (keys ?entry)"
    using assms(2,6) by (rule buildEntry_fitlers_keys)
  have dk: "distinct (keys ?entry)"
    using assms(2) by (rule buildEntry_keys_distinct)
  have flt: "index_filter (fitlers ?entry) K = FilterFunc f"
    using assms(6) by (simp add: index_filter_def)
  have in_order: "Name plug \<in> set order" using assms(1,4) by auto
  have other: "GoPair K (Name plug) event \<notin>
      set (case pluginEntries c name of None \<Rightarrow> [] | Some entry \<Rightarrow> spawn name entry event)"
    if "name \<noteq> Name plug" for name
    using that by (auto simp: spawn_def split: option.splits)
  have "count_list (dispatch c order event) (GoPair K (Name plug) event) =
      count_list (case pluginEntries c (Name plug) of None \<Rightarrow> []
                  | Some entry \<Rightarrow> spawn (Name plug) entry event) (GoPair K (Name plug) event)"
    unfolding dispatch_def using assms(3) in_order
    by (rule count_concat_map_unique) (use other in blast)
  also have "\<dots> = count_list
      (map (\<lambda>key. GoPair key (Name plug) event :: ('e, 'h) goroutine) (keys ?entry))
      (GoPair K (Name plug) event)"
    using assms(1) by (simp add: spawn_def)
  also have "\<dots> = count_list (keys ?entry) K"
    by (rule count_list_inj_map) (auto simp: inj_on_def K)
  also have "\<dots> = 1"
    using dk K by (rule count_list_distinct)
  finally have started: "count_list (dispatch c order event) (GoPair K (Name plug) event) = 1" .
  have "count_list (dispatch_trace c order event) (HandlerCall (Name plug) K event) =
      (if K = noFilterKey then 1 else 0) +
      (if K \<in> set (keys ?entry) \<and> accepts (index_filter (fitlers ?entry) K) event then 1 else 0)"
    using in_order assms(1,3) dk by (intro count_HandlerCall)
  then have "count_list (dispatch_trace c order event) (HandlerCall (Name plug) K event) =
      (if f event then 1 else 0)"
    using K flt assms(8) by (simp add: accepts_def)
  moreover have "run_goroutine c (GoPair K (Name plug) event) =
      (if f event
       then FilterCall (Name plug) K event # HandlerCall (Name plug) K event #
            call (index_handler (handlers ?entry) K) event
       else [FilterCall (Name plug) K event])"
    using assms(1) flt by (simp add: index_entry_def)
  ultimately show ?thesis using started by simp
qed

theorem keyed_handler_iff_filter_witness:
  "pluginEntries (fst (RegisterAllPlugins [pluginA, pluginB] Client)) (Name pluginA) =
     Some (fst (buildEntry pluginA)) \<and>
   distinct (map fst (Filters pluginA)) \<and>
   distinct [''A'', ''B''] \<and>
   set [''A'', ''B''] = dom (pluginEntries (fst (RegisterAllPlugins [pluginA, pluginB] Client))) \<and>
   fitlers (fst (buildEntry pluginA)) ''cmd'' = Some (FilterFunc isCommand) \<and>
   ''cmd'' \<in> dom (handlers (fst (buildEntry pluginA))) \<and>
   ''cmd'' \<noteq> noFilterKey \<and>
   dispatch_trace (fst (RegisterAllPlugins [pluginA, pluginB] Client)) [''A'', ''B''] ''cmd'' =
     [HandlerCall ''A'' noFilterKey ''cmd'',
      FilterCall ''A'' ''cmd'' ''cmd'', HandlerCall ''A'' ''cmd'' ''cmd'', Run ''reply'' ''cmd'',
      HandlerCall ''B'' noFilterKey ''cmd'', Run ''logAll'' ''cmd''] \<and>
   dispatch_trace (fst (RegisterAllPlugins [pluginA, pluginB] Client)) [''A'', ''B''] ''hello'' =
     [HandlerCall ''A'' noFilterKey ''hello'',
      FilterCall ''A'' ''cmd'' ''hello'',
      HandlerCall ''B'' noFilterKey ''hello'', Run ''logAll'' ''hello''] \<and>
   count_list (dispatch (fst (RegisterAllPlugins [pluginA, pluginB] Client)) [''A'', ''B''] ''cmd'')
     (GoPair ''cmd'' ''A'' ''cmd'') = 1 \<and>
   count_list (dispatch_trace (fst (RegisterAllPlugins [pluginA, pluginB] Client)) [''A'', ''B''] ''cmd'')
     (HandlerCall ''A'' ''cmd'' ''cmd'') = 1 \<and>
   count_list (dispatch_trace (fst (RegisterAllPlugins [pluginA, pluginB] Client)) [''A'', ''B''] ''hello'')
     (HandlerCall ''A'' ''cmd'' ''hello'') = 0"
proof -
  let ?c = "fst (RegisterAllPlugins [pluginA, pluginB] Client) :: (string, string) cqclient"
  have eA: "fst (buildEntry pluginA) =
      \<lparr>keys = [''cmd''], fitlers = [''cmd'' \<mapsto> FilterFunc isCommand],
       handlers = [''cmd'' \<mapsto> PluginHandler ''reply'', noFilterKey \<mapsto> CatchAll []]\<rparr>"
    by (simp add: buildEntry_def afterFilters_def noFilterHanlers_def index_handler_def
        index_bool_def pluginA_def noFilterKey_def)
  have ev: "pluginEntries ?c ''A'' =
      Some \<lparr>keys = [''cmd''], fitlers = [''cmd'' \<mapsto> FilterFunc isCommand],
            handlers = [''cmd'' \<mapsto> PluginHandler ''reply'', noFilterKey \<mapsto> CatchAll []]\<rparr>"
    "pluginEntries ?c ''B'' =
      Some \<lparr>keys = [], fitlers = Map.empty,
            handlers = [noFilterKey \<mapsto> CatchAll [PluginHandler ''logAll'']]\<rparr>"
    by (simp_all add: RegisterAllPlugins_def registerPlugin_def buildEntry_def afterFilters_def
        noFilterHanlers_def index_handler_def index_bool_def logf_def Client_def pluginA_def
        pluginB_def noFilterKey_def)
  have n: "Name pluginA = ''A''" "isCommand ''cmd''" "\<not> isCommand ''hello''"
    by (simp_all add: pluginA_def isCommand_def)
  have h7: "''cmd'' \<noteq> noFilterKey" by (simp add: noFilterKey_def)
  have t1: "dispatch_trace ?c [''A'', ''B''] ''cmd'' =
     [HandlerCall ''A'' noFilterKey ''cmd'',
      FilterCall ''A'' ''cmd'' ''cmd'', HandlerCall ''A'' ''cmd'' ''cmd'', Run ''reply'' ''cmd'',
      HandlerCall ''B'' noFilterKey ''cmd'', Run ''logAll'' ''cmd'']"
    using h7 by (simp add: dispatch_trace_def dispatch_def spawn_def ev
        index_handler_def index_filter_def index_entry_def n)
  have t2: "dispatch_trace ?c [''A'', ''B''] ''hello'' =
     [HandlerCall ''A'' noFilterKey ''hello'',
      FilterCall ''A'' ''cmd'' ''hello'',
      HandlerCall ''B'' noFilterKey ''hello'', Run ''logAll'' ''hello'']"
    using h7 by (simp add: dispatch_trace_def dispatch_def spawn_def ev
        index_handler_def index_filter_def index_entry_def n)
  have h1: "pluginEntries ?c (Name pluginA) = Some (fst (buildEntry pluginA))"
    unfolding n eA by (rule ev)
  have h2: "distinct (map fst (Filters pluginA))" by (simp add: pluginA_def)
  have h3: "distinct [''A'', ''B'']" by simp
  have h4: "set [''A'', ''B''] = dom (pluginEntries ?c)"
    by (auto simp: RegisterAllPlugins_def registerPlugin_def Client_def pluginA_def pluginB_def
        split: prod.splits if_splits)
  have p1: "NilPanic \<notin> set (dispatch_trace ?c [''A'', ''B''] ''cmd'')"
    unfolding t1 by simp
  have p2: "NilPanic \<notin> set (dispatch_trace ?c [''A'', ''B''] ''hello'')"
    unfolding t2 by simp
  have h5: "fitlers (fst (buildEntry pluginA)) ''cmd'' = Some (FilterFunc isCommand)"
    unfolding eA by simp
  have h6: "''cmd'' \<in> dom (handlers (fst (buildEntry pluginA)))"
    unfolding eA using h7 by simp
  from keyed_handler_iff_filter [OF h1 h2 h3 h4 p1 h5 h6 h7]
    keyed_handler_iff_filter [OF h1 h2 h3 h4 p2 h5 h6 h7]
    h1 h2 h3 h4 t1 t2 h5 h6 h7
  show ?thesis by (simp add: n)
qed

text \<open>
  The claim as stated fails at the reserved key. Plugin R has a filter and a handler under
  it; the filter returns false on the event \<open>''hello''\<close>, and the handler slot of the
  reserved key of R's entry is called all the same, by the goroutine that dispatch starts
  for that slot without a filter. No goroutine of this dispatch panics.
\<close>

theorem keyed_handler_reserved_key_counterexample:
  "pluginEntries (fst (RegisterAllPlugins [pluginR] Client)) ''R'' = Some (fst (buildEntry pluginR)) \<and>
   fitlers (fst (buildEntry pluginR)) noFilterKey = Some (FilterFunc isCommand) \<and>
   noFilterKey \<in> dom (handlers (fst (buildEntry pluginR))) \<and>
   \<not> isCommand ''hello'' \<and>
   dispatch_trace (fst (RegisterAllPlugins [pluginR] Client)) [''R''] ''hello'' =
     [HandlerCall ''R'' noFilterKey ''hello'', Run ''logAll'' ''hello'',
      FilterCall ''R'' noFilterKey ''hello''] \<and>
   count_list (dispatch_trace (fst (RegisterAllPlugins [pluginR] Client)) [''R''] ''hello'')
     (HandlerCall ''R'' noFilterKey ''hello'') = 1"
proof -
  let ?c = "fst (RegisterAllPlugins [pluginR] Client) :: (string, string) cqclient"
  have h1: "pluginEntries ?c (Name pluginR) = Some (fst (buildEntry pluginR))"
    by (rule RegisterAllPlugins_loaded) (simp_all add: pluginR_def)
  then have h1': "pluginEntries ?c ''R'' = Some (fst (buildEntry pluginR))"
    by (simp add: pluginR_def)
  have t: "dispatch_trace ?c [''R''] ''hello'' =
     [HandlerCall ''R'' noFilterKey ''hello'', Run ''logAll'' ''hello'',
      FilterCall ''R'' noFilterKey ''hello'']"
    using h1' by (simp add: dispatch_trace_def dispatch_def spawn_def pluginR_entry
        index_handler_def index_filter_def index_entry_def isCommand_def)
  show ?thesis
    unfolding t using h1' by (simp add: pluginR_entry isCommand_def)
qed

text \<open>
  C3, amended. Let the handlers of a plugin whose keys are not in the key list of its
  entry (the keys without a paired filter) be the functions \<open>funcs\<close>, in range order, and
  let no goroutine of the dispatch of an event panic. The handler in the reserved slot of the
  entry is the catch-all over \<open>funcs\<close>. Dispatch starts a goroutine that calls it, whatever
  the event, and this goroutine runs each function of \<open>funcs\<close> once, one after the other.
  Unless the plugin pairs a filter with a handler under the reserved key and that filter
  accepts the event, the catch-all is called exactly once in the dispatch of the event.
\<close>

theorem unfiltered_handlers_once:
  assumes "pluginEntries c (Name plug) = Some (fst (buildEntry plug))"
    and "distinct (map fst (Filters plug))"
    and "distinct order" and "set order = dom (pluginEntries c)"
    and "NilPanic \<notin> set (dispatch_trace c order event)"
    and "map snd (filter (\<lambda>(k, h). k \<notin> set (keys (fst (buildEntry plug)))) (Handlers plug)) =
         map PluginHandler funcs"
    and "\<not> (noFilterKey \<in> set (keys (fst (buildEntry plug))) \<and>
            accepts (index_filter (fitlers (fst (buildEntry plug))) noFilterKey) event)"
  shows "index_handler (handlers (fst (buildEntry plug))) noFilterKey =
           CatchAll (map PluginHandler funcs) \<and>
         count_list (dispatch_trace c order event) (HandlerCall (Name plug) noFilterKey event) = 1 \<and>
         GoNoFilter (Name plug) (CatchAll (map PluginHandler funcs)) event
           \<in> set (dispatch c order event) \<and>
         run_goroutine c (GoNoFilter (Name plug) (CatchAll (map PluginHandler funcs)) event) =
           HandlerCall (Name plug) noFilterKey event # map (\<lambda>h. Run h event) funcs"
proof -
  let ?entry = "fst (buildEntry plug)"
  have in_order: "Name plug \<in> set order" using assms(1,4) by auto
  have nf: "noFilterHanlers plug = map PluginHandler funcs"
    using assms(6) by (simp add: noFilterHanlers_eq)
  have "handlers ?entry noFilterKey = Some (CatchAll (noFilterHanlers plug))"
    by (simp add: buildEntry_def)
  then have catch: "index_handler (handlers ?entry) noFilterKey = CatchAll (map PluginHandler funcs)"
    by (simp add: index_handler_def nf)
  have "count_list (dispatch_trace c order event) (HandlerCall (Name plug) noFilterKey event) =
      (if noFilterKey = noFilterKey then 1 else 0) +
      (if noFilterKey \<in> set (keys ?entry) \<and>
          accepts (index_filter (fitlers ?entry) noFilterKey) event then 1 else 0)"
    using in_order assms(1,2,3) by (intro count_HandlerCall) (simp_all add: buildEntry_keys_distinct)
  then have once: "count_list (dispatch_trace c order event)
      (HandlerCall (Name plug) noFilterKey event) = 1"
    using assms(7) by simp
  have "GoNoFilter (Name plug) (index_handler (handlers ?entry) noFilterKey) event
      \<in> set (spawn (Name plug) ?entry event)"
    by (simp add: spawn_def)
  moreover have "set (spawn (Name plug) ?entry event) \<subseteq> set (dispatch c order event)"
    using assms(1) in_order by (auto simp: dispatch_def intro!: bexI [of _ "Name plug"])
  ultimately have started: "GoNoFilter (Name plug) (CatchAll (map PluginHandler funcs)) event
      \<in> set (dispatch c order event)"
    using catch by auto
  show ?thesis
    using catch once started by (simp add: call_seq_funcs)
qed

theorem unfiltered_handlers_once_witness:
  "pluginEntries (fst (RegisterAllPlugins [pluginC] Client)) (Name pluginC) =
     Some (fst (buildEntry pluginC)) \<and>
   distinct (map fst (Filters pluginC)) \<and>
   set [''C''] = dom (pluginEntries (fst (RegisterAllPlugins [pluginC] Client))) \<and>
   dispatch_trace (fst (RegisterAllPlugins [pluginC] Client)) [''C''] ''hello'' =
     [HandlerCall ''C'' noFilterKey ''hello'', Run ''logAll'' ''hello'', Run ''audit'' ''hello'',
      FilterCall ''C'' ''cmd'' ''hello''] \<and>
   keys (fst (buildEntry pluginC)) = [''cmd''] \<and>
   map snd (filter (\<lambda>(k, h). k \<notin> set (keys (fst (buildEntry pluginC)))) (Handlers pluginC)) =
     map PluginHandler [''logAll'', ''audit''] \<and>
   count_list (dispatch_trace (fst (RegisterAllPlugins [pluginC] Client)) [''C''] ''hello'')
     (HandlerCall ''C'' noFilterKey ''hello'') = 1 \<and>
   GoNoFilter ''C'' (CatchAll [PluginHandler ''logAll'', PluginHandler ''audit'']) ''hello''
     \<in> set (dispatch (fst (RegisterAllPlugins [pluginC] Client)) [''C''] ''hello'') \<and>
   run_goroutine (fst (RegisterAllPlugins [pluginC] Client))
     (GoNoFilter ''C'' (CatchAll [PluginHandler ''logAll'', PluginHandler ''audit'']) ''hello'') =
     [HandlerCall ''C'' noFilterKey ''hello'', Run ''logAll'' ''hello'', Run ''audit'' ''hello'']"
proof -
  let ?c = "fst (RegisterAllPlugins [pluginC] Client) :: (string, string) cqclient"
  have eC: "fst (buildEntry pluginC) =
      \<lparr>keys = [''cmd''], fitlers = [''cmd'' \<mapsto> FilterFunc isCommand],
       handlers = [''cmd'' \<mapsto> PluginHandler ''reply'',
                   noFilterKey \<mapsto> CatchAll [PluginHandler ''logAll'', PluginHandler ''audit'']]\<rparr>"
    by (simp add: buildEntry_def afterFilters_def noFilterHanlers_def index_handler_def
        index_bool_def pluginC_def noFilterKey_def)
  have ev: "pluginEntries ?c ''C'' =
      Some \<lparr>keys = [''cmd''], fitlers = [''cmd'' \<mapsto> FilterFunc isCommand],
            handlers = [''cmd'' \<mapsto> PluginHandler ''reply'',
                        noFilterKey \<mapsto> CatchAll [PluginHandler ''logAll'', PluginHandler ''audit'']]\<rparr>"
    by (simp add: RegisterAllPlugins_def registerPlugin_def buildEntry_def afterFilters_def
        noFilterHanlers_def index_handler_def index_bool_def logf_def Client_def pluginC_def
        noFilterKey_def)
  have n: "Name pluginC = ''C''" "\<not> isCommand ''hello''"
    by (simp_all add: pluginC_def isCommand_def)
  have k0: "''cmd'' \<noteq> noFilterKey" by (simp add: noFilterKey_def)
  have t: "dispatch_trace ?c [''C''] ''hello'' =
     [HandlerCall ''C'' noFilterKey ''hello'', Run ''logAll'' ''hello'', Run ''audit'' ''hello'',
      FilterCall ''C'' ''cmd'' ''hello'']"
    using k0 by (simp add: dispatch_trace_def dispatch_def spawn_def ev
        index_handler_def index_filter_def index_entry_def n)
  have h1: "pluginEntries ?c (Name pluginC) = Some (fst (buildEntry pluginC))"
    unfolding n eC by (rule ev)
  have h2: "distinct (map fst (Filters pluginC))" by (simp add: pluginC_def)
  have h3: "distinct [''C'']" by simp
  have h4: "set [''C''] = dom (pluginEntries ?c)"
    by (auto simp: RegisterAllPlugins_def registerPlugin_def Client_def pluginC_def
        split: prod.splits if_splits)
  have p: "NilPanic \<notin> set (dispatch_trace ?c [''C''] ''hello'')"
    unfolding t by simp
  have k: "keys (fst (buildEntry pluginC)) = [''cmd'']"
    unfolding eC by simp
  have h5: "map snd (filter (\<lambda>(k, h). k \<notin> set (keys (fst (buildEntry pluginC)))) (Handlers pluginC)) =
      map PluginHandler [''logAll'', ''audit'']"
    unfolding k by (simp add: pluginC_def)
  have h6: "\<not> (noFilterKey \<in> set (keys (fst (buildEntry pluginC))) \<and>
      accepts (index_filter (fitlers (fst (buildEntry pluginC))) noFilterKey) ''hello'')"
    unfolding k by (simp add: noFilterKey_def)
  from unfiltered_handlers_once [OF h1 h2 h3 h4 p h5 h6] h1 h2 h4 t h5 k
  show ?thesis by (simp add: n)
qed

text \<open>
  The claim as stated fails for a plugin that pairs a filter with a handler under the
  reserved key. In plugin R the handler under \<open>''log''\<close> has no filter; on the event
  \<open>''cmd''\<close>, which the filter under the reserved key accepts, it runs twice.
\<close>

theorem unfiltered_handlers_twice_counterexample:
  "(''log'', PluginHandler ''logAll'') \<in> set (Handlers pluginR) \<and>
   ''log'' \<notin> fst ` set (Filters pluginR) \<and>
   dispatch_trace (fst (RegisterAllPlugins [pluginR] Client)) [''R''] ''cmd'' =
     [HandlerCall ''R'' noFilterKey ''cmd'', Run ''logAll'' ''cmd'',
      FilterCall ''R'' noFilterKey ''cmd'',
      HandlerCall ''R'' noFilterKey ''cmd'', Run ''logAll'' ''cmd''] \<and>
   count_list (dispatch_trace (fst (RegisterAllPlugins [pluginR] Client)) [''R''] ''cmd'')
     (Run ''logAll'' ''cmd'') = 2"
proof -
  let ?c = "fst (RegisterAllPlugins [pluginR] Client) :: (string, string) cqclient"
  have h1: "pluginEntries ?c (Name pluginR) = Some (fst (buildEntry pluginR))"
    by (rule RegisterAllPlugins_loaded) (simp_all add: pluginR_def)
  then have h1': "pluginEntries ?c ''R'' = Some (fst (buildEntry pluginR))"
    by (simp add: pluginR_def)
  have t: "dispatch_trace ?c [''R''] ''cmd'' =
     [HandlerCall ''R'' noFilterKey ''cmd'', Run ''logAll'' ''cmd'',
      FilterCall ''R'' noFilterKey ''cmd'',
      HandlerCall ''R'' noFilterKey ''cmd'', Run ''logAll'' ''cmd'']"
    using h1' by (simp add: dispatch_trace_def dispatch_def spawn_def pluginR_entry
        index_handler_def index_filter_def index_entry_def isCommand_def)
  have "''log'' \<noteq> noFilterKey" by (simp add: noFilterKey_def)
  then show ?thesis unfolding t by (simp add: pluginR_def)
qed

text \<open>
  C6. Let a plugin have a filter under a key \<open>K\<close> and no handler under \<open>K\<close>. Registering
  the plugin logs the warning for \<open>K\<close>; \<open>K\<close> is not in the key list of the entry and the
  filter map of the entry has nothing under \<open>K\<close>. In no dispatch, whatever the event and the
  range order, is a goroutine started for \<open>K\<close> or the filter slot \<open>K\<close> of the entry
  evaluated.
\<close>

theorem unused_filter_key_dropped:
  assumes "(K, flt) \<in> set (Filters plug)"
    and "index_handler (map_of (Handlers plug)) K = NilHandler"
    and "pluginEntries c (Name plug) = Some (fst (buildEntry plug))"
  shows "UnusedKeyWarning (Name plug) K \<in> set (logs (registerPlugin plug c0)) \<and>
         K \<notin> set (keys (fst (buildEntry plug))) \<and>
         fitlers (fst (buildEntry plug)) K = None \<and>
         GoPair K (Name plug) event \<notin> set (dispatch c order event) \<and>
         FilterCall (Name plug) K event \<notin> set (dispatch_trace c order event)"
proof -
  let ?entry = "fst (buildEntry plug)"
  have np: "\<not> paired (Handlers plug) K" using assms(2) by (simp add: paired_def)
  have "K \<in> fst ` set (Filters plug)" using assms(1) by force
  then have warn: "UnusedKeyWarning (Name plug) K \<in> set (logs (registerPlugin plug c0))"
    using np by (simp add: registerPlugin_simps buildEntry_warnings)
  have nokey: "K \<notin> set (keys ?entry)" using np by (simp add: buildEntry_keys)
  have nofilter: "fitlers ?entry K = None" using np by (rule buildEntry_fitlers_unpaired)
  have ent: "index_entry (pluginEntries c) (Name plug) = ?entry"
    using assms(3) by (simp add: index_entry_def)
  have "GoPair K (Name plug) event \<notin> set (dispatch c order event)"
    using dispatch_GoPair [of K "Name plug" event c order event] nokey ent by auto
  moreover have "FilterCall (Name plug) K event \<notin> set (dispatch_trace c order event)"
    using dispatch_trace_FilterCall [of "Name plug" K event c order event] nokey ent by auto
  ultimately show ?thesis using warn nokey nofilter by simp
qed

theorem unused_filter_key_dropped_witness:
  "(''dead'', FilterFunc isCommand) \<in> set (Filters pluginC) \<and>
   index_handler (map_of (Handlers pluginC)) ''dead'' = NilHandler \<and>
   pluginEntries (registerPlugin pluginC Client) (Name pluginC) = Some (fst (buildEntry pluginC)) \<and>
   logs (registerPlugin pluginC (Client :: (string, string) cqclient)) =
     [UnusedKeyWarning ''C'' ''dead''] \<and>
   keys (fst (buildEntry pluginC)) = [''cmd''] \<and>
   fitlers (fst (buildEntry pluginC)) ''dead'' = None \<and>
   FilterCall ''C'' ''dead'' ''cmd'' \<notin>
     set (dispatch_trace (registerPlugin pluginC Client) [''C''] ''cmd'')"
proof -
  let ?c = "registerPlugin pluginC Client :: (string, string) cqclient"
  have h1: "(''dead'', FilterFunc isCommand) \<in> set (Filters pluginC)"
    by (simp add: pluginC_def)
  have h2: "index_handler (map_of (Handlers pluginC)) ''dead'' = NilHandler"
    by (simp add: index_handler_def pluginC_def)
  have h3: "pluginEntries ?c (Name pluginC) = Some (fst (buildEntry pluginC))"
    by (simp add: registerPlugin_simps)
  have l: "logs ?c = [UnusedKeyWarning ''C'' ''dead'']"
    by (simp add: registerPlugin_simps buildEntry_warnings paired_def index_handler_def
        pluginC_def Client_def)
  have k: "keys (fst (buildEntry pluginC)) = [''cmd'']"
    by (simp add: buildEntry_keys paired_def index_handler_def pluginC_def)
  have n: "Name pluginC = ''C''" by (simp add: pluginC_def)
  from unused_filter_key_dropped
    [OF h1 h2 h3, of "Client :: (string, string) cqclient" "''cmd''" "[''C'']"] h1 h2 h3 l k
  show ?thesis by (simp add: n)
qed




text \<open>
  C10. Let the filters of a plugin hold a function \<open>f\<close> under the reserved key and its
  handlers a handler \<open>declared\<close> under the same key. After the first loop of registration
  the entry holds this pair under the reserved key; in the entry installed the handler under
  the reserved key is the catch-all over the handlers whose keys are not in the key list,
  while the filter and the key stay. For an event that \<open>f\<close> accepts, dispatch starts the
  goroutine of the reserved key, which evaluates the filter and calls the catch-all.
\<close>

theorem reserved_key_pair_runs_catch_all:
  assumes "distinct (map fst (Filters plug))"
    and "map_of (Filters plug) noFilterKey = Some (FilterFunc f)"
    and "index_handler (map_of (Handlers plug)) noFilterKey = declared"
    and "declared \<noteq> NilHandler"
    and "pluginEntries c (Name plug) = Some (fst (buildEntry plug))"
    and "Name plug \<in> set order"
    and "f event"
  shows "handlers (entry' (afterFilters plug)) noFilterKey = Some declared \<and>
         fitlers (entry' (afterFilters plug)) noFilterKey = Some (FilterFunc f) \<and>
         handlers (fst (buildEntry plug)) noFilterKey = Some (CatchAll (noFilterHanlers plug)) \<and>
         fitlers (fst (buildEntry plug)) noFilterKey = Some (FilterFunc f) \<and>
         noFilterKey \<in> set (keys (fst (buildEntry plug))) \<and>
         noFilterHanlers plug =
           map snd (filter (\<lambda>(k, h). k \<notin> set (keys (fst (buildEntry plug)))) (Handlers plug)) \<and>
         GoPair noFilterKey (Name plug) event \<in> set (dispatch c order event) \<and>
         run_goroutine c (GoPair noFilterKey (Name plug) event) =
           FilterCall (Name plug) noFilterKey event # HandlerCall (Name plug) noFilterKey event #
           call (CatchAll (noFilterHanlers plug)) event"
proof -
  let ?entry = "fst (buildEntry plug)"
  have "noFilterKey \<in> fst ` set (Filters plug)"
    using map_of_SomeD [OF assms(2)] by force
  moreover have p: "paired (Handlers plug) noFilterKey"
    using assms(3,4) by (simp add: paired_def)
  ultimately have K: "noFilterKey \<in> set (keys ?entry)"
    by (simp add: buildEntry_keys)
  then have K': "noFilterKey \<in> set (filter (paired (Handlers plug)) (map fst (Filters plug)))"
    by (simp add: buildEntry_keys)
  have before: "handlers (entry' (afterFilters plug)) noFilterKey = Some declared"
    using K' assms(3) by (simp add: afterFilters_def pairFilters_handlers)
  have before_f: "fitlers (entry' (afterFilters plug)) noFilterKey = Some (FilterFunc f)"
    using K' assms(1,2) by (simp add: afterFilters_def pairFilters_fitlers)
  have after: "handlers ?entry noFilterKey = Some (CatchAll (noFilterHanlers plug))"
    by (simp add: buildEntry_handlers)
  have after_f: "fitlers ?entry noFilterKey = Some (FilterFunc f)"
    using K assms(1,2) by (simp add: buildEntry_fitlers)
  have "GoPair noFilterKey (Name plug) event \<in> set (spawn (Name plug) ?entry event)"
    using K by (simp add: spawn_def)
  then have started: "GoPair noFilterKey (Name plug) event \<in> set (dispatch c order event)"
    using spawn_in_dispatch [OF assms(5,6), of event] by auto
  have run: "run_goroutine c (GoPair noFilterKey (Name plug) event) =
      FilterCall (Name plug) noFilterKey event # HandlerCall (Name plug) noFilterKey event #
      call (CatchAll (noFilterHanlers plug)) event"
    using assms(5,7) after after_f by (simp add: index_entry_def index_filter_def index_handler_def)
  show ?thesis
    using before before_f after after_f K started run noFilterHanlers_eq [of plug] by blast
qed

theorem reserved_key_pair_runs_catch_all_witness:
  "distinct (map fst (Filters pluginR)) \<and>
   map_of (Filters pluginR) noFilterKey = Some (FilterFunc isCommand) \<and>
   index_handler (map_of (Handlers pluginR)) noFilterKey = PluginHandler ''declared'' \<and>
   pluginEntries (registerPlugin pluginR Client) (Name pluginR) = Some (fst (buildEntry pluginR)) \<and>
   isCommand ''cmd'' \<and>
   handlers (entry' (afterFilters pluginR)) noFilterKey = Some (PluginHandler ''declared'') \<and>
   handlers (fst (buildEntry pluginR)) noFilterKey = Some (CatchAll [PluginHandler ''logAll'']) \<and>
   run_goroutine (registerPlugin pluginR Client) (GoPair noFilterKey ''R'' ''cmd'') =
     [FilterCall ''R'' noFilterKey ''cmd'', HandlerCall ''R'' noFilterKey ''cmd'',
      Run ''logAll'' ''cmd'']"
proof -
  let ?c = "registerPlugin pluginR Client :: (string, string) cqclient"
  have h1: "distinct (map fst (Filters pluginR))" by (simp add: pluginR_def)
  have h2: "map_of (Filters pluginR) noFilterKey = Some (FilterFunc isCommand)"
    by (simp add: pluginR_def)
  have h3: "index_handler (map_of (Handlers pluginR)) noFilterKey = PluginHandler ''declared''"
    by (simp add: index_handler_def pluginR_def)
  have h4: "PluginHandler ''declared'' \<noteq> (NilHandler :: string Handler)" by simp
  have h5: "pluginEntries ?c (Name pluginR) = Some (fst (buildEntry pluginR))"
    by (simp add: registerPlugin_simps)
  have h6: "Name pluginR \<in> set [''R'']" by (simp add: pluginR_def)
  have h7: "isCommand ''cmd''" by (simp add: isCommand_def)
  have nf: "noFilterHanlers pluginR = [PluginHandler ''logAll'']"
    by (simp add: noFilterHanlers_eq pluginR_entry(1)) (simp add: pluginR_def noFilterKey_def)
  have n: "Name pluginR = ''R''" by (simp add: pluginR_def)
  from reserved_key_pair_runs_catch_all [OF h1 h2 h3 h4 h5 h6 h7] h1 h2 h3 h5 h7
  show ?thesis by (simp add: nf n)
qed

section \<open>The status query\<close>

lemma GetStatus_nil:
  "apiURL c = [] \<Longrightarrow> fst (GetStatus a httpGet decode c) = Inr None"
  "apiURL c \<noteq> [] \<Longrightarrow> httpGet (getAPIURL c a) = Inl err \<Longrightarrow>
     fst (GetStatus a httpGet decode c) = Inr None"
  "apiURL c \<noteq> [] \<Longrightarrow> httpGet (getAPIURL c a) = Inr body \<Longrightarrow> decode body = Inl err \<Longrightarrow>
     fst (GetStatus a httpGet decode c) = Inr None"
  "apiURL c \<noteq> [] \<Longrightarrow> httpGet (getAPIURL c a) = Inr body \<Longrightarrow> decode body = Inr response \<Longrightarrow>
     RetCode response \<noteq> 0 \<Longrightarrow> fst (GetStatus a httpGet decode c) = Inr None"
  by (simp_all add: GetStatus_def)

lemma GetStatus_decoded:
  "apiURL c \<noteq> [] \<Longrightarrow> httpGet (getAPIURL c a) = Inr body \<Longrightarrow> decode body = Inr response \<Longrightarrow>
   RetCode response = 0 \<Longrightarrow>
   fst (GetStatus a httpGet decode c) =
     (case decodeStatus (Data response) of Inl p \<Rightarrow> Inl p | Inr status \<Rightarrow> Inr (Some status))"
  by (simp add: GetStatus_def split: sum.splits)

text \<open>
  C8. With the URL set, the request answered and the body decoded to the well-formed
  reply \<^verbatim>\<open>{"retcode": 0, "data": null}\<close>, \<^verbatim>\<open>GetStatus\<close> does not return \<^verbatim>\<open>nil\<close>: the type
  assertion on \<^verbatim>\<open>response.Data\<close> panics. The same happens when \<^verbatim>\<open>data\<close> is an object in
  which one of the six flags is missing.
\<close>

theorem GetStatus_malformed_payload_panics:
  "fst (GetStatus ''get_status'' (\<lambda>url. Inr ''{\"retcode\": 0, \"data\": null}'')
          (\<lambda>body. Inr \<lparr>RetCode = 0, Data = JNull, RespEcho = 0\<rparr>)
          (Client\<lparr>apiURL := ''http://127.0.0.1:5700''\<rparr> :: (string, string) cqclient)) =
     Inl InterfaceConversion \<and>
   fst (GetStatus ''get_status'' (\<lambda>url. Inr ''{}'')
          (\<lambda>body. Inr \<lparr>RetCode = 0,
             Data = JObject [(''app_initialized'', JBool True), (''app_enabled'', JBool True),
                             (''plugins_good'', JBool True), (''app_good'', JBool True),
                             (''online'', JBool True)],
             RespEcho = 0\<rparr>)
          (Client\<lparr>apiURL := ''http://127.0.0.1:5700''\<rparr> :: (string, string) cqclient)) =
     Inl InterfaceConversion"
  by (simp add: GetStatus_def decodeStatus_def bind_panic_def assert_map_def assert_bool_def
      Client_def)

end
